theory Spec2Isabelle
  imports Main
begin

section \<open>Data model\<close>

text \<open>
  The enum \<^verbatim>\<open>job_status\<close> of \<^verbatim>\<open>packages/db/src/lib/enums.ts\<close>.
\<close>

datatype JobStatus = pending | processing | extracting | completed | failed

text \<open>
  A row of the table \<^verbatim>\<open>jobs\<close>: the columns that the Job Store operations and the
  gateway read or write (the migrations give their SQL types). Timestamps are
  milliseconds since the epoch, as a JavaScript \<^verbatim>\<open>Date\<close> holds them; a nullable
  column is an option. File metadata, hints and the bookkeeping columns
  \<^verbatim>\<open>created_at\<close>/\<^verbatim>\<open>updated_at\<close> are not touched by any operation modelled here.
\<close>

record job =
  j_id :: string
  j_organizationId :: string
  j_userId :: string
  j_apiKeyId :: "string option"
  j_status :: JobStatus
  j_llmModel :: "string option"
  j_markdownResult :: "string option"
  j_jsonResult :: "string option"
  j_pageCount :: "int option"
  j_tokenCount :: "int option"
  j_errorCode :: "string option"
  j_errorMessage :: "string option"
  j_retryCount :: int
  j_startedAt :: "int option"
  j_completedAt :: "int option"
  j_processingTimeMs :: "int option"

text \<open>
  The interface \<^verbatim>\<open>UpdateData\<close> without its \<^verbatim>\<open>status\<close> key
  (\<^verbatim>\<open>Omit<UpdateData, "status">\<close>): every key is optional.
\<close>

record UpdateData =
  ud_markdownResult :: "string option"
  ud_jsonResult :: "string option"
  ud_pageCount :: "int option"
  ud_tokenCount :: "int option"
  ud_errorCode :: "string option"
  ud_errorMessage :: "string option"
  ud_retryCount :: "int option"
  ud_startedAt :: "int option"
  ud_completedAt :: "int option"
  ud_processingTimeMs :: "int option"

text \<open>
  \<^verbatim>\<open>LlmUsage\<close> and \<^verbatim>\<open>CompleteJobResult\<close>. Page, token and millisecond counts are whole
  numbers; \<^verbatim>\<open>jsonResult\<close> is kept as its JSON text.
\<close>

record LlmUsage =
  lu_promptTokens :: int
  lu_completionTokens :: int

record CompleteJobResult =
  r_markdownResult :: string
  r_jsonResult :: "string option"
  r_pageCount :: int
  r_tokenCount :: "int option"
  r_llmModel :: "string option"
  r_llmUsage :: "LlmUsage option"
  r_processingTimeMs :: int

text \<open>
  A calendar date (year, month, day): the SQL type \<^verbatim>\<open>date\<close> of
  \<^verbatim>\<open>api_key_usage_daily.day\<close>, written \<^verbatim>\<open>YYYY-MM-DD\<close> by the code.
\<close>

type_synonym date = "int \<times> int \<times> int"

text \<open>
  Rows of \<^verbatim>\<open>usage_events\<close> and \<^verbatim>\<open>api_key_usage_daily\<close>
  (migration \<^verbatim>\<open>0001_stormy_ronan.sql\<close>). The surrogate key \<^verbatim>\<open>usage_events.id\<close> is
  generated by the schema's default and only tested for presence by the code; it is
  left out. \<^verbatim>\<open>created_at\<close> is filled by the database (\<^verbatim>\<open>DEFAULT now()\<close>).
\<close>

record usage_event =
  ue_apiKeyId :: string
  ue_jobId :: string
  ue_pages :: int
  ue_promptTokens :: int
  ue_completionTokens :: int
  ue_model :: "string option"
  ue_createdAt :: int

record daily_row =
  d_apiKeyId :: string
  d_day :: date
  d_pages :: int
  d_jobsCount :: int
  d_promptTokens :: int
  d_completionTokens :: int

text \<open>
  The messages handed to \<^verbatim>\<open>publishJobUpdate\<close>, one constructor per \<^verbatim>\<open>type\<close> tag, with
  the fields of the object literals in the Job Store:
  \<^item> \<open>StatusUpdate jobId status processingTimeMs\<close>,
  \<^item> \<open>CompletedUpdate jobId markdownResult jsonResult processingTimeMs\<close>
    (its \<^verbatim>\<open>status\<close> is always \<^verbatim>\<open>"completed"\<close>),
  \<^item> \<open>ErrorUpdate jobId error\<close> (its \<^verbatim>\<open>status\<close> is always \<^verbatim>\<open>"failed"\<close>).
\<close>

datatype JobUpdateMessage =
    StatusUpdate string JobStatus "int option"
  | CompletedUpdate string string "string option" int
  | ErrorUpdate string string

fun message_type :: "JobUpdateMessage \<Rightarrow> string" where
  "message_type (StatusUpdate _ _ _) = ''status''"
| "message_type (CompletedUpdate _ _ _ _) = ''completed''"
| "message_type (ErrorUpdate _ _) = ''error''"

text \<open>
  The state the operations act on: the three tables, and the in-process Notification
  Bus. Callbacks are closures, compared by identity; a callback is named by the
  number it received when it was created (\<open>nextCallback\<close> is the next free one).
  \<open>delivered cb\<close> is the sequence of messages callback \<open>cb\<close> has been called with, and
  \<open>publishLog\<close> records every call of \<^verbatim>\<open>publishJobUpdate\<close> in order.
\<close>

record world =
  jobs :: "job list"
  usageEvents :: "usage_event list"
  apiKeyUsageDaily :: "daily_row list"
  subscribers :: "string \<Rightarrow> nat set"
  delivered :: "nat \<Rightarrow> JobUpdateMessage list"
  publishLog :: "(string \<times> JobUpdateMessage) list"
  nextCallback :: nat

text \<open>
  A rejected promise: the only failure of a durable write that the tables themselves
  decide is a value outside the 32-bit range of an \<^verbatim>\<open>integer\<close> column (PostgreSQL
  raises \<^verbatim>\<open>numeric_value_out_of_range\<close> and aborts the statement or transaction).
\<close>

datatype db_error = NumericValueOutOfRange

datatype outcome = Resolved | Rejected db_error

definition int4_ok :: "int \<Rightarrow> bool" where
  "int4_ok n = (- 2147483648 \<le> n \<and> n \<le> 2147483647)"

definition int4_opt_ok :: "int option \<Rightarrow> bool" where
  "int4_opt_ok x = (case x of None \<Rightarrow> True | Some n \<Rightarrow> int4_ok n)"

section \<open>Notification Bus\<close>

text \<open>
  Modelled from the spec: \<^verbatim>\<open>services/websocket.ts\<close> (\<^verbatim>\<open>subscribeToJob\<close>,
  \<^verbatim>\<open>unsubscribeFromJob\<close>, \<^verbatim>\<open>publishJobUpdate\<close>) is not among the sources. The spec's
  section 4.3: the registry maps a job identifier to a set of callbacks; subscribe adds
  the callback to the set of the job.
\<close>

definition subscribeToJob :: "string \<Rightarrow> nat \<Rightarrow> world \<Rightarrow> world" where
  "subscribeToJob jobId callback s =
     s\<lparr>subscribers := (subscribers s)(jobId := insert callback (subscribers s jobId))\<rparr>"

text \<open>
  Modelled from the spec: \<^verbatim>\<open>unsubscribeFromJob\<close> is not among the sources. Spec 4.3:
  it removes the callback; removing a non-member is a no-op.
\<close>

definition unsubscribeFromJob :: "string \<Rightarrow> nat \<Rightarrow> world \<Rightarrow> world" where
  "unsubscribeFromJob jobId callback s =
     s\<lparr>subscribers := (subscribers s)(jobId := subscribers s jobId - {callback})\<rparr>"

text \<open>
  Modelled from the spec: \<^verbatim>\<open>publishJobUpdate\<close> is not among the sources. Spec 4.3:
  it delivers the message to every callback currently subscribed for the job, and a
  delivery failure never reaches the publisher.
\<close>

definition publishJobUpdate :: "string \<Rightarrow> JobUpdateMessage \<Rightarrow> world \<Rightarrow> world" where
  "publishJobUpdate jobId message s =
     s\<lparr>delivered := (\<lambda>cb. if cb \<in> subscribers s jobId
                              then delivered s cb @ [message] else delivered s cb),
       publishLog := publishLog s @ [(jobId, message)]\<rparr>"

section \<open>Job Store\<close>

text \<open>
  \<^verbatim>\<open>.set({...})\<close> skips a key whose value is \<^verbatim>\<open>undefined\<close>: the column keeps its value.
\<close>

definition set_col :: "'a option \<Rightarrow> 'a option \<Rightarrow> 'a option" where
  "set_col new old = (case new of None \<Rightarrow> old | Some v \<Rightarrow> Some v)"

text \<open>\<^verbatim>\<open>db.update(jobs).set(f).where(eq(jobs.id, jobId))\<close>.\<close>

definition update_jobs :: "string \<Rightarrow> (job \<Rightarrow> job) \<Rightarrow> job list \<Rightarrow> job list" where
  "update_jobs jobId f js = map (\<lambda>j. if j_id j = jobId then f j else j) js"

text \<open>\<^verbatim>\<open>db.query.jobs.findFirst({ where: eq(jobs.id, jobId) })\<close>.\<close>

definition find_job :: "string \<Rightarrow> job list \<Rightarrow> job option" where
  "find_job jobId js = find (\<lambda>j. j_id j = jobId) js"

subsection \<open>updateJobStatus\<close>

definition status_write :: "JobStatus \<Rightarrow> UpdateData option \<Rightarrow> job \<Rightarrow> job" where
  "status_write st data j =
     (case data of
        None \<Rightarrow> j\<lparr>j_status := st\<rparr>
      | Some d \<Rightarrow>
          j\<lparr>j_status := st,
            j_markdownResult := set_col (ud_markdownResult d) (j_markdownResult j),
            j_jsonResult := set_col (ud_jsonResult d) (j_jsonResult j),
            j_pageCount := set_col (ud_pageCount d) (j_pageCount j),
            j_tokenCount := set_col (ud_tokenCount d) (j_tokenCount j),
            j_errorCode := set_col (ud_errorCode d) (j_errorCode j),
            j_errorMessage := set_col (ud_errorMessage d) (j_errorMessage j),
            j_retryCount := (case ud_retryCount d of None \<Rightarrow> j_retryCount j | Some n \<Rightarrow> n),
            j_startedAt := set_col (ud_startedAt d) (j_startedAt j),
            j_completedAt := set_col (ud_completedAt d) (j_completedAt j),
            j_processingTimeMs := set_col (ud_processingTimeMs d) (j_processingTimeMs j)\<rparr>)"

definition status_write_ok :: "UpdateData option \<Rightarrow> bool" where
  "status_write_ok data =
     (case data of
        None \<Rightarrow> True
      | Some d \<Rightarrow> int4_opt_ok (ud_pageCount d) \<and> int4_opt_ok (ud_tokenCount d)
                 \<and> int4_opt_ok (ud_retryCount d) \<and> int4_opt_ok (ud_processingTimeMs d))"

definition updateJobStatus ::
  "string \<Rightarrow> JobStatus \<Rightarrow> UpdateData option \<Rightarrow> world \<Rightarrow> outcome \<times> world" where
  "updateJobStatus jobId st data s =
     (if \<not> status_write_ok data then (Rejected NumericValueOutOfRange, s)
      else
        let s1 = s\<lparr>jobs := update_jobs jobId (status_write st data) (jobs s)\<rparr>
        in (Resolved,
            publishJobUpdate jobId
              (StatusUpdate jobId st (case data of None \<Rightarrow> None | Some d \<Rightarrow> ud_processingTimeMs d))
              s1))"

subsection \<open>failJob\<close>

definition fail_write :: "string \<Rightarrow> string \<Rightarrow> int \<Rightarrow> job \<Rightarrow> job" where
  "fail_write errorCode errorMessage retryCount j =
     j\<lparr>j_errorCode := Some errorCode,
       j_errorMessage := Some errorMessage,
       j_retryCount := retryCount,
       j_status := failed\<rparr>"

definition failJob ::
  "string \<Rightarrow> string \<Rightarrow> string \<Rightarrow> bool \<Rightarrow> world \<Rightarrow> outcome \<times> world" where
  "failJob jobId errorCode errorMessage shouldRetry s =
     (let retryCount =
            (case find_job jobId (jobs s) of None \<Rightarrow> 0 | Some job \<Rightarrow> j_retryCount job) + 1
      in if \<not> int4_ok retryCount then (Rejected NumericValueOutOfRange, s)
         else
           let s1 = s\<lparr>jobs := update_jobs jobId (fail_write errorCode errorMessage retryCount) (jobs s)\<rparr>
           in if \<not> shouldRetry
              then (Resolved, publishJobUpdate jobId (ErrorUpdate jobId errorMessage) s1)
              else (Resolved, s1))"

subsection \<open>completeJob\<close>

text \<open>
  \<^verbatim>\<open>completedAt.toISOString().split("T")[0]\<close>: the UTC calendar date of an instant given
  in milliseconds since the epoch. The day number is the floor of the quotient by the
  length of a day; the proleptic Gregorian date of a day number is computed era by era
  (an era is 400 years, 146097 days, counted from 1 March of year 0).
\<close>

definition civil_from_days :: "int \<Rightarrow> date" where
  "civil_from_days z0 =
     (let z = z0 + 719468;
          era = z div 146097;
          doe = z - era * 146097;
          yoe = (doe - doe div 1460 + doe div 36524 - doe div 146096) div 365;
          doy = doe - (365 * yoe + yoe div 4 - yoe div 100);
          mp = (5 * doy + 2) div 153;
          d = doy - (153 * mp + 2) div 5 + 1;
          m = (if mp < 10 then mp + 3 else mp - 9);
          y = yoe + era * 400
      in (if m \<le> 2 then y + 1 else y, m, d))"

definition toISODate :: "int \<Rightarrow> date" where
  "toISODate ms = civil_from_days (ms div 86400000)"

text \<open>
  The write of the job row: \<^verbatim>\<open>jsonResult\<close>, \<^verbatim>\<open>llmModel\<close> and \<^verbatim>\<open>tokenCount\<close> may be
  \<^verbatim>\<open>undefined\<close> and then keep the stored value.
\<close>

definition complete_write :: "int \<Rightarrow> CompleteJobResult \<Rightarrow> job \<Rightarrow> job" where
  "complete_write completedAt result j =
     j\<lparr>j_completedAt := Some completedAt,
       j_jsonResult := set_col (r_jsonResult result) (j_jsonResult j),
       j_llmModel := set_col (r_llmModel result) (j_llmModel j),
       j_markdownResult := Some (r_markdownResult result),
       j_pageCount := Some (r_pageCount result),
       j_processingTimeMs := Some (r_processingTimeMs result),
       j_status := completed,
       j_tokenCount := set_col (r_tokenCount result) (j_tokenCount j)\<rparr>"

definition complete_write_ok :: "CompleteJobResult \<Rightarrow> bool" where
  "complete_write_ok result =
     (int4_ok (r_pageCount result) \<and> int4_ok (r_processingTimeMs result)
      \<and> int4_opt_ok (r_tokenCount result))"

text \<open>
  \<^verbatim>\<open>.returning({ apiKeyId: jobs.apiKeyId })\<close> and the destructuring \<^verbatim>\<open>[updatedJob]\<close>: the
  \<^verbatim>\<open>apiKeyId\<close> of the first updated row; \<^verbatim>\<open>updatedJob?.apiKeyId\<close> is \<^verbatim>\<open>undefined\<close> when no
  row was updated.
\<close>

definition returned_apiKeyId :: "string \<Rightarrow> job list \<Rightarrow> string option" where
  "returned_apiKeyId jobId js =
     (case filter (\<lambda>j. j_id j = jobId) js of [] \<Rightarrow> None | j # _ \<Rightarrow> j_apiKeyId j)"

text \<open>The truthiness test \<^verbatim>\<open>if (updatedJob?.apiKeyId)\<close>: the empty string is falsy.\<close>

definition truthy :: "string option \<Rightarrow> bool" where
  "truthy x = (case x of None \<Rightarrow> False | Some str \<Rightarrow> str \<noteq> [])"

definition same_key :: "string \<Rightarrow> date \<Rightarrow> daily_row \<Rightarrow> bool" where
  "same_key apiKeyId day r = (d_apiKeyId r = apiKeyId \<and> d_day r = day)"

definition daily_add :: "int \<Rightarrow> int \<Rightarrow> int \<Rightarrow> daily_row \<Rightarrow> daily_row" where
  "daily_add pages promptTokens completionTokens r =
     r\<lparr>d_completionTokens := d_completionTokens r + completionTokens,
       d_jobsCount := d_jobsCount r + 1,
       d_pages := d_pages r + pages,
       d_promptTokens := d_promptTokens r + promptTokens\<rparr>"

definition daily_row_ok :: "daily_row \<Rightarrow> bool" where
  "daily_row_ok r =
     (int4_ok (d_pages r) \<and> int4_ok (d_jobsCount r)
      \<and> int4_ok (d_promptTokens r) \<and> int4_ok (d_completionTokens r))"

text \<open>
  \<^verbatim>\<open>tx.insert(apiKeyUsageDaily).values(...).onConflictDoUpdate(...)\<close> on the primary key
  (apiKeyId, day): the conflicting row is incremented, and the statement fails when a
  sum leaves the range of its column; without a conflict the row is inserted.
  \<open>None\<close> is the failure.
\<close>

definition upsert_daily ::
  "string \<Rightarrow> date \<Rightarrow> int \<Rightarrow> int \<Rightarrow> int \<Rightarrow> daily_row list \<Rightarrow> daily_row list option" where
  "upsert_daily apiKeyId day pages promptTokens completionTokens rows =
     (if list_ex (same_key apiKeyId day) rows then
        (if list_all daily_row_ok
              (map (daily_add pages promptTokens completionTokens)
                   (filter (same_key apiKeyId day) rows))
         then Some (map (\<lambda>r. if same_key apiKeyId day r
                              then daily_add pages promptTokens completionTokens r else r) rows)
         else None)
      else
        Some (rows @ [\<lparr>d_apiKeyId = apiKeyId, d_day = day, d_pages = pages, d_jobsCount = 1,
                       d_promptTokens = promptTokens, d_completionTokens = completionTokens\<rparr>]))"

text \<open>
  The transaction \<^verbatim>\<open>db.transaction(async (tx) => ...)\<close>: the insert of the usage event
  with \<^verbatim>\<open>onConflictDoNothing({ target: usageEvents.jobId })\<close>, and the upsert of the daily
  aggregate only when a row was inserted. \<open>dbNow\<close> is the database's clock, which fills
  \<^verbatim>\<open>created_at\<close>. A failure inside the transaction rolls it back: the state is the one
  before it.
\<close>

definition usage_transaction ::
  "string \<Rightarrow> string \<Rightarrow> CompleteJobResult \<Rightarrow> date \<Rightarrow> int \<Rightarrow> int \<Rightarrow> int \<Rightarrow> world
     \<Rightarrow> outcome \<times> world" where
  "usage_transaction apiKeyId jobId result today promptTokens completionTokens dbNow s =
     (if \<not> (int4_ok completionTokens \<and> int4_ok (r_pageCount result) \<and> int4_ok promptTokens)
      then (Rejected NumericValueOutOfRange, s)
      else if list_ex (\<lambda>e. ue_jobId e = jobId) (usageEvents s)
      then (Resolved, s)
      else
        let s1 = s\<lparr>usageEvents := usageEvents s @
                     [\<lparr>ue_apiKeyId = apiKeyId, ue_jobId = jobId, ue_pages = r_pageCount result,
                       ue_promptTokens = promptTokens, ue_completionTokens = completionTokens,
                       ue_model = r_llmModel result, ue_createdAt = dbNow\<rparr>]\<rparr>
        in (case upsert_daily apiKeyId today (r_pageCount result) promptTokens completionTokens
                   (apiKeyUsageDaily s1) of
              None \<Rightarrow> (Rejected NumericValueOutOfRange, s)
            | Some rows \<Rightarrow> (Resolved, s1\<lparr>apiKeyUsageDaily := rows\<rparr>)))"

text \<open>
  \<open>now\<close> is what \<^verbatim>\<open>new Date()\<close> returns at the first line; \<open>dbNow\<close> is the database's clock
  when the transaction runs.
\<close>

definition completeJob ::
  "string \<Rightarrow> CompleteJobResult \<Rightarrow> int \<Rightarrow> int \<Rightarrow> world \<Rightarrow> outcome \<times> world" where
  "completeJob jobId result now dbNow s =
     (let completedAt = now in
      if \<not> complete_write_ok result then (Rejected NumericValueOutOfRange, s)
      else
        let s1 = s\<lparr>jobs := update_jobs jobId (complete_write completedAt result) (jobs s)\<rparr>;
            updatedJob = returned_apiKeyId jobId (jobs s1);
            message = CompletedUpdate jobId (r_markdownResult result) (r_jsonResult result)
                        (r_processingTimeMs result)
        in if truthy updatedJob then
             (let today = toISODate completedAt;
                  promptTokens = (case r_llmUsage result of None \<Rightarrow> 0 | Some u \<Rightarrow> lu_promptTokens u);
                  completionTokens =
                    (case r_llmUsage result of None \<Rightarrow> 0 | Some u \<Rightarrow> lu_completionTokens u)
              in case usage_transaction (the updatedJob) jobId result today promptTokens
                        completionTokens dbNow s1 of
                   (Rejected e, s2) \<Rightarrow> (Rejected e, s2)
                 | (Resolved, s2) \<Rightarrow> (Resolved, publishJobUpdate jobId message s2))
           else (Resolved, publishJobUpdate jobId message s1))"

section \<open>Real-Time Gateway\<close>

text \<open>
  What authentication hands to the \<^verbatim>\<open>open\<close> handler: the result of \<^verbatim>\<open>validateApiKey\<close>
  (\<^verbatim>\<open>ApiKeyInfo | null\<close>) and the result of \<^verbatim>\<open>auth.api.getSession\<close> (the session with its
  user and its optional active organization, or \<^verbatim>\<open>null\<close>).
\<close>

record ApiKeyInfo =
  ak_id :: string
  ak_name :: string
  ak_organizationId :: string
  ak_userId :: string

record Session =
  se_userId :: string
  se_activeOrganizationId :: "string option"

record WebSocketData =
  wd_jobId :: string
  wd_userId :: string
  wd_organizationId :: string
  wd_callback :: nat

text \<open>
  What the server writes on the socket: a connection-level error
  \<^verbatim>\<open>{ error, type: "error" }\<close>, a \<^verbatim>\<open>pong\<close>, or a job update.
\<close>

datatype frame = ConnectionError string | Pong | Update JobUpdateMessage

record socket =
  sent :: "frame list"
  closed :: bool
  wsData :: "WebSocketData option"

text \<open>
  The first half of \<^verbatim>\<open>open\<close>: the API key wins; otherwise the session must have a user
  and a truthy active organization. \<open>None\<close> is the branch that answers
  \<^verbatim>\<open>Unauthorized\<close>.
\<close>

definition resolve_identity :: "ApiKeyInfo option \<Rightarrow> Session option \<Rightarrow> (string \<times> string) option" where
  "resolve_identity apiKeyAuth session =
     (case apiKeyAuth of
        Some a \<Rightarrow> Some (ak_userId a, ak_organizationId a)
      | None \<Rightarrow>
          (case session of
             None \<Rightarrow> None
           | Some se \<Rightarrow>
               if \<not> truthy (se_activeOrganizationId se) then None
               else Some (se_userId se, the (se_activeOrganizationId se))))"

definition jobsWebSocket_open ::
  "string \<Rightarrow> ApiKeyInfo option \<Rightarrow> Session option \<Rightarrow> socket \<Rightarrow> world \<Rightarrow> socket \<times> world" where
  "jobsWebSocket_open jobId apiKeyAuth session ws s =
     (case resolve_identity apiKeyAuth session of
        None \<Rightarrow> (ws\<lparr>sent := sent ws @ [ConnectionError ''Unauthorized''], closed := True\<rparr>, s)
      | Some (userId, organizationId) \<Rightarrow>
          (case find (\<lambda>j. j_id j = jobId \<and> j_organizationId j = organizationId) (jobs s) of
             None \<Rightarrow> (ws\<lparr>sent := sent ws @ [ConnectionError ''Job not found''], closed := True\<rparr>, s)
           | Some job \<Rightarrow>
               let callback = nextCallback s;
                   ws1 = ws\<lparr>wsData := Some \<lparr>wd_jobId = jobId, wd_userId = userId,
                                             wd_organizationId = organizationId,
                                             wd_callback = callback\<rparr>\<rparr>;
                   s1 = subscribeToJob jobId callback (s\<lparr>nextCallback := Suc callback\<rparr>)
               in (ws1\<lparr>sent := sent ws1 @ [Update (StatusUpdate jobId (j_status job) None)]\<rparr>, s1)))"

definition jobsWebSocket_close :: "socket \<Rightarrow> world \<Rightarrow> world" where
  "jobsWebSocket_close ws s =
     (case wsData ws of
        None \<Rightarrow> s
      | Some d \<Rightarrow> unsubscribeFromJob (wd_jobId d) (wd_callback d) s)"

text \<open>
  The \<^verbatim>\<open>open\<close> handler is \<^verbatim>\<open>async\<close>: it suspends at \<^verbatim>\<open>await validateApiKey(...)\<close>, at
  \<^verbatim>\<open>await auth.api.getSession(...)\<close> and at \<^verbatim>\<open>await db.query.jobs.findFirst(...)\<close>, and
  other handlers run while it is suspended. An \<open>open_task\<close> is the handler suspended at
  one of these: the job identifier, the identity it has resolved so far, and the values
  the pending authentication calls resolve to.
\<close>

datatype open_task =
    AwaitApiKey string "ApiKeyInfo option" "Session option"
  | AwaitSession string "Session option"
  | AwaitJob string string string

text \<open>
  The handler resumed from an await and run to its next await (\<open>Some\<close> of the new task)
  or to its end (\<open>None\<close>). The lookup of the job reads the table as it is when the
  handler resumes.
\<close>

fun open_resume :: "open_task \<Rightarrow> socket \<Rightarrow> world \<Rightarrow> open_task option \<times> socket \<times> world" where
  "open_resume (AwaitApiKey jobId apiKeyAuth session) ws s =
     (case apiKeyAuth of
        Some a \<Rightarrow> (Some (AwaitJob jobId (ak_userId a) (ak_organizationId a)), ws, s)
      | None \<Rightarrow> (Some (AwaitSession jobId session), ws, s))"
| "open_resume (AwaitSession jobId session) ws s =
     (case session of
        None \<Rightarrow> (None, ws\<lparr>sent := sent ws @ [ConnectionError ''Unauthorized''], closed := True\<rparr>, s)
      | Some se \<Rightarrow>
          if \<not> truthy (se_activeOrganizationId se)
          then (None, ws\<lparr>sent := sent ws @ [ConnectionError ''Unauthorized''], closed := True\<rparr>, s)
          else (Some (AwaitJob jobId (se_userId se) (the (se_activeOrganizationId se))), ws, s))"
| "open_resume (AwaitJob jobId userId organizationId) ws s =
     (case find (\<lambda>j. j_id j = jobId \<and> j_organizationId j = organizationId) (jobs s) of
        None \<Rightarrow> (None, ws\<lparr>sent := sent ws @ [ConnectionError ''Job not found''], closed := True\<rparr>, s)
      | Some job \<Rightarrow>
          let callback = nextCallback s;
              ws1 = ws\<lparr>wsData := Some \<lparr>wd_jobId = jobId, wd_userId = userId,
                                        wd_organizationId = organizationId,
                                        wd_callback = callback\<rparr>\<rparr>;
              s1 = subscribeToJob jobId callback (s\<lparr>nextCallback := Suc callback\<rparr>)
          in (None, ws1\<lparr>sent := sent ws1 @ [Update (StatusUpdate jobId (j_status job) None)]\<rparr>, s1))"

text \<open>The handler resumed at each of its awaits in turn, with nothing in between.\<close>

definition open_uninterrupted :: "open_task \<Rightarrow> socket \<Rightarrow> world \<Rightarrow> socket \<times> world" where
  "open_uninterrupted t ws s =
     (case open_resume t ws s of
        (None, ws1, s1) \<Rightarrow> (ws1, s1)
      | (Some t1, ws1, s1) \<Rightarrow>
          (case open_resume t1 ws1 s1 of
             (None, ws2, s2) \<Rightarrow> (ws2, s2)
           | (Some t2, ws2, s2) \<Rightarrow>
               (case open_resume t2 ws2 s2 of (_, ws3, s3) \<Rightarrow> (ws3, s3))))"

text \<open>
  The server process: the world, the socket object of every connection, and the
  \<^verbatim>\<open>open\<close> handlers that are suspended.
\<close>

record gateway =
  g_world :: world
  g_sockets :: "nat \<Rightarrow> socket"
  g_opening :: "nat \<Rightarrow> open_task option"

text \<open>
  What the runtime and the Job Store do to the server, one event at a time: a peer
  connects (the \<^verbatim>\<open>open\<close> handler starts on a new socket and suspends at its first
  await), a suspended handler resumes, a peer disconnects (the \<^verbatim>\<open>close\<close> handler runs on
  the socket, whatever the \<^verbatim>\<open>open\<close> handler has done so far), a notification is
  published.
\<close>

datatype gateway_event =
    Connect nat string "ApiKeyInfo option" "Session option"
  | Resume nat
  | Disconnect nat
  | Publish string JobUpdateMessage

fun gateway_step :: "gateway_event \<Rightarrow> gateway \<Rightarrow> gateway" where
  "gateway_step (Connect c jobId apiKeyAuth session) g =
     g\<lparr>g_sockets := (g_sockets g)(c := \<lparr>sent = [], closed = False, wsData = None\<rparr>),
       g_opening := (g_opening g)(c := Some (AwaitApiKey jobId apiKeyAuth session))\<rparr>"
| "gateway_step (Resume c) g =
     (case g_opening g c of
        None \<Rightarrow> g
      | Some t \<Rightarrow>
          (case open_resume t (g_sockets g c) (g_world g) of
             (t', ws', s') \<Rightarrow>
               g\<lparr>g_world := s',
                 g_sockets := (g_sockets g)(c := ws'),
                 g_opening := (g_opening g)(c := t')\<rparr>))"
| "gateway_step (Disconnect c) g =
     g\<lparr>g_world := jobsWebSocket_close (g_sockets g c) (g_world g),
       g_sockets := (g_sockets g)(c := (g_sockets g c)\<lparr>closed := True\<rparr>)\<rparr>"
| "gateway_step (Publish jobId message) g =
     g\<lparr>g_world := publishJobUpdate jobId message (g_world g)\<rparr>"

fun gateway_run :: "gateway_event list \<Rightarrow> gateway \<Rightarrow> gateway" where
  "gateway_run [] g = g"
| "gateway_run (e # es) g = gateway_run es (gateway_step e g)"

section \<open>Runs, observations and invariants\<close>

text \<open>
  A sequence of \<^verbatim>\<open>completeJob\<close> calls, each with its job, its result and the two clock
  readings; a rejected call leaves the state it reached.
\<close>

fun run_completions :: "(string \<times> CompleteJobResult \<times> int \<times> int) list \<Rightarrow> world \<Rightarrow> world" where
  "run_completions [] s = s"
| "run_completions ((jobId, result, now, dbNow) # cs) s =
     run_completions cs (snd (completeJob jobId result now dbNow s))"

text \<open>The outcomes of the calls of such a sequence, in order.\<close>

fun completion_outcomes ::
  "(string \<times> CompleteJobResult \<times> int \<times> int) list \<Rightarrow> world \<Rightarrow> outcome list" where
  "completion_outcomes [] s = []"
| "completion_outcomes ((jobId, result, now, dbNow) # cs) s =
     fst (completeJob jobId result now dbNow s)
       # completion_outcomes cs (snd (completeJob jobId result now dbNow s))"

text \<open>
  The counts (pages, jobsCount, promptTokens, completionTokens) stored for an API key
  and a day; all zero when there is no row.
\<close>

definition daily_counts :: "string \<Rightarrow> date \<Rightarrow> daily_row list \<Rightarrow> int \<times> int \<times> int \<times> int" where
  "daily_counts apiKeyId day rows =
     (case find (same_key apiKeyId day) rows of
        None \<Rightarrow> (0, 0, 0, 0)
      | Some r \<Rightarrow> (d_pages r, d_jobsCount r, d_promptTokens r, d_completionTokens r))"

definition add_counts :: "int \<times> int \<times> int \<times> int \<Rightarrow> int \<times> int \<times> int \<times> int \<Rightarrow> int \<times> int \<times> int \<times> int" where
  "add_counts a b =
     (case a of (p, j, pt, ct) \<Rightarrow> case b of (p', j', pt', ct') \<Rightarrow> (p + p', j + j', pt + pt', ct + ct'))"

text \<open>What one completion adds to its aggregate.\<close>

definition job_counts :: "CompleteJobResult \<Rightarrow> int \<times> int \<times> int \<times> int" where
  "job_counts result =
     (r_pageCount result, 1,
      (case r_llmUsage result of None \<Rightarrow> 0 | Some u \<Rightarrow> lu_promptTokens u),
      (case r_llmUsage result of None \<Rightarrow> 0 | Some u \<Rightarrow> lu_completionTokens u))"

text \<open>
  What the database asks of a result: its counts fit the \<^verbatim>\<open>integer\<close> columns of
  \<^verbatim>\<open>jobs\<close> and \<^verbatim>\<open>usage_events\<close>.
\<close>

definition usage_values_ok :: "CompleteJobResult \<Rightarrow> bool" where
  "usage_values_ok result =
     (complete_write_ok result
      \<and> (case job_counts result of (pages, n, promptTokens, completionTokens) \<Rightarrow>
            int4_ok promptTokens \<and> int4_ok completionTokens))"

text \<open>
  The aggregate of the key and day, if it exists, stays within its \<^verbatim>\<open>integer\<close> columns
  when the counts of the result are added.
\<close>

definition aggregate_has_room :: "string \<Rightarrow> date \<Rightarrow> CompleteJobResult \<Rightarrow> daily_row list \<Rightarrow> bool" where
  "aggregate_has_room apiKeyId day result rows =
     (case job_counts result of (pages, n, promptTokens, completionTokens) \<Rightarrow>
        list_all daily_row_ok
          (map (daily_add pages promptTokens completionTokens)
               (filter (same_key apiKeyId day) rows)))"

definition events_of_job :: "string \<Rightarrow> world \<Rightarrow> usage_event list" where
  "events_of_job jobId s = filter (\<lambda>e. ue_jobId e = jobId) (usageEvents s)"

definition daily_key :: "daily_row \<Rightarrow> string \<times> date" where
  "daily_key r = (d_apiKeyId r, d_day r)"

text \<open>The API key of a usage event and the UTC day on which the row was created.\<close>

definition event_key :: "usage_event \<Rightarrow> string \<times> date" where
  "event_key e = (ue_apiKeyId e, toISODate (ue_createdAt e))"

definition events_on :: "string \<times> date \<Rightarrow> usage_event list \<Rightarrow> usage_event list" where
  "events_on key es = filter (\<lambda>e. event_key e = key) es"

definition aggregate_matches :: "usage_event list \<Rightarrow> daily_row \<Rightarrow> bool" where
  "aggregate_matches es r =
     (let xs = events_on (daily_key r) es
      in d_pages r = sum_list (map ue_pages xs)
         \<and> d_jobsCount r = int (length xs)
         \<and> d_promptTokens r = sum_list (map ue_promptTokens xs)
         \<and> d_completionTokens r = sum_list (map ue_completionTokens xs))"

text \<open>
  The aggregate consistency invariant: at most one row per (apiKeyId, day), and every
  row holds the sums over the usage events of its key created on its day.
\<close>

definition aggregates_consistent :: "world \<Rightarrow> bool" where
  "aggregates_consistent s =
     (distinct (map daily_key (apiKeyUsageDaily s))
      \<and> list_all (aggregate_matches (usageEvents s)) (apiKeyUsageDaily s))"

text \<open>Every usage event is counted in some row: its key has a row.\<close>

definition events_covered :: "world \<Rightarrow> bool" where
  "events_covered s =
     list_all (\<lambda>e. event_key e \<in> set (map daily_key (apiKeyUsageDaily s))) (usageEvents s)"

text \<open>Every registered callback has been created: its number is below the next free one.\<close>

definition bus_fresh :: "world \<Rightarrow> bool" where
  "bus_fresh s = (\<forall>jobId. \<forall>cb \<in> subscribers s jobId. cb < nextCallback s)"

section \<open>The scenario of the specification\<close>

text \<open>
  Job \<^verbatim>\<open>job_abc\<close> of organization \<^verbatim>\<open>org_a\<close>, owned by API key \<^verbatim>\<open>ak_1\<close>, in status
  \<^verbatim>\<open>processing\<close>; no usage recorded yet, nobody subscribed.
\<close>

definition job_abc :: job where
  "job_abc =
     \<lparr>j_id = ''job_abc'', j_organizationId = ''org_a'', j_userId = ''user_1'',
      j_apiKeyId = Some ''ak_1'', j_status = processing, j_llmModel = None,
      j_markdownResult = None, j_jsonResult = None, j_pageCount = None, j_tokenCount = None,
      j_errorCode = None, j_errorMessage = None, j_retryCount = 0, j_startedAt = None,
      j_completedAt = None, j_processingTimeMs = None\<rparr>"

definition world0 :: world where
  "world0 =
     \<lparr>jobs = [job_abc], usageEvents = [], apiKeyUsageDaily = [],
      subscribers = (\<lambda>_. {}), delivered = (\<lambda>_. []), publishLog = [], nextCallback = 0\<rparr>"

definition result_abc :: CompleteJobResult where
  "result_abc =
     \<lparr>r_markdownResult = ''# Hi'', r_jsonResult = None, r_pageCount = 2, r_tokenCount = Some 50,
      r_llmModel = None,
      r_llmUsage = Some \<lparr>lu_promptTokens = 30, lu_completionTokens = 20\<rparr>,
      r_processingTimeMs = 1200\<rparr>"

text \<open>
  The transitions of the state table of the specification (section 4.1, column
  ``entered from''), with the retry that takes a failed job back to processing.
\<close>

fun spec_transition :: "JobStatus \<Rightarrow> JobStatus \<Rightarrow> bool" where
  "spec_transition pending processing = True"
| "spec_transition processing extracting = True"
| "spec_transition processing completed = True"
| "spec_transition extracting completed = True"
| "spec_transition pending failed = True"
| "spec_transition processing failed = True"
| "spec_transition extracting failed = True"
| "spec_transition failed processing = True"
| "spec_transition _ _ = False"

text \<open>The scenario after \<^verbatim>\<open>completeJob("job_abc", ...)\<close> on 3 November 2025 (UTC).\<close>

definition world_done :: world where
  "world_done = snd (completeJob ''job_abc'' result_abc 1762128000000 1762128000005 world0)"


text \<open>Callers of the gateway: an API key of organization \<^verbatim>\<open>org_a\<close>, one of \<^verbatim>\<open>org_b\<close>.\<close>

definition key_org_a :: ApiKeyInfo where
  "key_org_a = \<lparr>ak_id = ''ak_1'', ak_name = ''a'', ak_organizationId = ''org_a'', ak_userId = ''user_1''\<rparr>"

definition key_org_b :: ApiKeyInfo where
  "key_org_b = \<lparr>ak_id = ''ak_2'', ak_name = ''b'', ak_organizationId = ''org_b'', ak_userId = ''user_2''\<rparr>"

definition fresh_socket :: socket where
  "fresh_socket = \<lparr>sent = [], closed = False, wsData = None\<rparr>"

definition data_abc :: WebSocketData where
  "data_abc = \<lparr>wd_jobId = ''job_abc'', wd_userId = ''user_1'', wd_organizationId = ''org_a'',
               wd_callback = 0\<rparr>"

text \<open>
  The server with the scenario's job and no connection, and two orders of the same
  events for one connection authenticated by the API key of \<^verbatim>\<open>org_a\<close>: the peer
  disconnects while \<^verbatim>\<open>open\<close> is suspended at its first await, or after \<^verbatim>\<open>open\<close> has
  ended.
\<close>

definition gateway0 :: gateway where
  "gateway0 = \<lparr>g_world = world0, g_sockets = (\<lambda>_. fresh_socket), g_opening = (\<lambda>_. None)\<rparr>"

definition close_during_open :: "gateway_event list" where
  "close_during_open =
     [Connect 0 ''job_abc'' (Some key_org_a) None, Disconnect 0, Resume 0, Resume 0]"

definition close_after_open :: "gateway_event list" where
  "close_after_open =
     [Connect 0 ''job_abc'' (Some key_org_a) None, Resume 0, Resume 0, Disconnect 0]"

text \<open>
  A second job of the same API key, \<^verbatim>\<open>job_def\<close>, in a world where \<^verbatim>\<open>job_abc\<close> has
  already been completed on 3 November 2025: the ledger holds one usage event and the
  aggregate row of that day.
\<close>

definition job_def :: job where
  "job_def = job_abc\<lparr>j_id := ''job_def''\<rparr>"

definition world_two :: world where
  "world_two =
     snd (completeJob ''job_abc'' result_abc 1762128000000 1762128000005
            (world0\<lparr>jobs := [job_abc, job_def]\<rparr>))"

text \<open>
  The scenario's result with a prompt token count beyond the range of an \<^verbatim>\<open>integer\<close>
  column.
\<close>

definition result_big :: CompleteJobResult where
  "result_big = result_abc\<lparr>r_llmUsage := Some \<lparr>lu_promptTokens = 3000000000, lu_completionTokens = 20\<rparr>\<rparr>"

text \<open>
  The scenario completed one millisecond before midnight (UTC) of 1 January 1970, the
  database inserting two milliseconds later.
\<close>

definition world_midnight :: world where
  "world_midnight = snd (completeJob ''job_abc'' result_abc 86399999 86400001 world0)"

section \<open>Lemmas\<close>

subsection \<open>Writes of the job table\<close>


lemma find_job_update_jobs:
  assumes "\<And>j. j_id (f j) = j_id j"
  shows "find_job jobId (update_jobs jobId f js) = map_option f (find_job jobId js)"
  using assms by (induction js) (auto simp: find_job_def update_jobs_def)

lemma filter_other_update_jobs:
  assumes "\<And>j. j_id (f j) = j_id j"
  shows "filter (\<lambda>j. j_id j \<noteq> jobId) (update_jobs jobId f js) = filter (\<lambda>j. j_id j \<noteq> jobId) js"
  using assms by (induction js) (auto simp: update_jobs_def)

lemma list_all_update_jobs:
  assumes "\<And>j. j_id (f j) = j_id j" and "\<And>j. P (f j)"
  shows "list_all (\<lambda>j. j_id j = jobId \<longrightarrow> P j) (update_jobs jobId f js)"
  using assms by (induction js) (auto simp: update_jobs_def)

lemma j_id_status_write [simp]: "j_id (status_write st data j) = j_id j"
  by (simp add: status_write_def split: option.splits)

lemma j_id_fail_write [simp]: "j_id (fail_write ec em rc j) = j_id j"
  by (simp add: fail_write_def)

lemma j_id_complete_write [simp]: "j_id (complete_write t r j) = j_id j"
  by (simp add: complete_write_def)

lemma j_status_status_write [simp]: "j_status (status_write st data j) = st"
  by (simp add: status_write_def split: option.splits)

lemma publishJobUpdate_simps [simp]:
  "jobs (publishJobUpdate jobId m s) = jobs s"
  "usageEvents (publishJobUpdate jobId m s) = usageEvents s"
  "apiKeyUsageDaily (publishJobUpdate jobId m s) = apiKeyUsageDaily s"
  "subscribers (publishJobUpdate jobId m s) = subscribers s"
  "nextCallback (publishJobUpdate jobId m s) = nextCallback s"
  "publishLog (publishJobUpdate jobId m s) = publishLog s @ [(jobId, m)]"
  "delivered (publishJobUpdate jobId m s) cb =
     (if cb \<in> subscribers s jobId then delivered s cb @ [m] else delivered s cb)"
  by (simp_all add: publishJobUpdate_def)

lemma completeJob_jobs:
  "complete_write_ok result \<Longrightarrow>
   jobs (snd (completeJob jobId result now dbNow s)) = update_jobs jobId (complete_write now result) (jobs s)"
  by (auto simp: completeJob_def Let_def usage_transaction_def split: prod.splits outcome.splits option.splits)

lemma result_abc_ok: "complete_write_ok result_abc"
  by (simp add: complete_write_ok_def int4_ok_def int4_opt_ok_def result_abc_def)

lemma world_done_jobs: "jobs world_done = [complete_write 1762128000000 result_abc job_abc]"
  unfolding world_done_def
  by (simp add: completeJob_jobs [OF result_abc_ok]) (simp add: update_jobs_def world0_def job_abc_def)


subsection \<open>Bus and gateway\<close>

lemma subscribers_subscribeToJob [simp]:
  "subscribers (subscribeToJob jobId cb s) = (subscribers s)(jobId := insert cb (subscribers s jobId))"
  by (simp add: subscribeToJob_def)

lemma subscribers_unsubscribeFromJob [simp]:
  "subscribers (unsubscribeFromJob jobId cb s) = (subscribers s)(jobId := subscribers s jobId - {cb})"
  by (simp add: unsubscribeFromJob_def)

lemma nextCallback_bus [simp]:
  "nextCallback (subscribeToJob jobId cb s) = nextCallback s"
  "nextCallback (unsubscribeFromJob jobId cb s) = nextCallback s"
  by (simp_all add: subscribeToJob_def unsubscribeFromJob_def)

lemma open_subscribed:
  assumes "wsData ws = None"
    and "jobsWebSocket_open jobId apiKeyAuth session ws s = (ws1, s1)"
    and "wsData ws1 = Some d"
  shows "\<exists>userId organizationId.
           d = \<lparr>wd_jobId = jobId, wd_userId = userId, wd_organizationId = organizationId,
                wd_callback = nextCallback s\<rparr>
           \<and> s1 = subscribeToJob jobId (nextCallback s) (s\<lparr>nextCallback := Suc (nextCallback s)\<rparr>)"
proof (cases "resolve_identity apiKeyAuth session")
  case None
  with assms(2) have "ws1 = ws\<lparr>sent := sent ws @ [ConnectionError ''Unauthorized''], closed := True\<rparr>"
    by (simp add: jobsWebSocket_open_def)
  with assms(1,3) show ?thesis by simp
next
  case (Some p)
  obtain userId organizationId where p: "p = (userId, organizationId)" by (cases p)
  show ?thesis
  proof (cases "find (\<lambda>j. j_id j = jobId \<and> j_organizationId j = organizationId) (jobs s)")
    case None
    with assms(2) Some p
    have "ws1 = ws\<lparr>sent := sent ws @ [ConnectionError ''Job not found''], closed := True\<rparr>"
      by (simp add: jobsWebSocket_open_def)
    with assms(1,3) show ?thesis by simp
  next
    case (Some job)
    with assms(2) \<open>resolve_identity apiKeyAuth session = Some p\<close> p
    have "ws1 = ws\<lparr>wsData := Some \<lparr>wd_jobId = jobId, wd_userId = userId,
                                       wd_organizationId = organizationId,
                                       wd_callback = nextCallback s\<rparr>,
                     sent := sent ws @ [Update (StatusUpdate jobId (j_status job) None)]\<rparr>"
      and "s1 = subscribeToJob jobId (nextCallback s) (s\<lparr>nextCallback := Suc (nextCallback s)\<rparr>)"
      by (simp_all add: jobsWebSocket_open_def Let_def)
    with assms(3) show ?thesis by auto
  qed
qed

subsection \<open>Usage ledger\<close>

lemma returned_apiKeyId_find_job:
  "returned_apiKeyId jobId js = (case find_job jobId js of None \<Rightarrow> None | Some j \<Rightarrow> j_apiKeyId j)"
  by (induction js) (auto simp: returned_apiKeyId_def find_job_def)

lemma returned_apiKeyId_complete_write [simp]:
  "returned_apiKeyId jobId (update_jobs jobId (complete_write t r) js) = returned_apiKeyId jobId js"
  by (simp add: returned_apiKeyId_find_job find_job_update_jobs complete_write_def
           split: option.splits)

lemma list_ex_events_of_job:
  "list_ex (\<lambda>e. ue_jobId e = jobId) (usageEvents s) \<longleftrightarrow> events_of_job jobId s \<noteq> []"
  by (auto simp: events_of_job_def list_ex_iff filter_empty_conv)

lemma usage_transaction_effect:
  assumes "usage_transaction k jobId r today pt ct dbNow s = (out, s')"
  shows "(s' = s \<and> (out = Resolved \<longrightarrow> events_of_job jobId s \<noteq> []))
       \<or> (out = Resolved \<and> events_of_job jobId s = []
          \<and> usageEvents s' = usageEvents s @
                [\<lparr>ue_apiKeyId = k, ue_jobId = jobId, ue_pages = r_pageCount r,
                  ue_promptTokens = pt, ue_completionTokens = ct,
                  ue_model = r_llmModel r, ue_createdAt = dbNow\<rparr>]
          \<and> upsert_daily k today (r_pageCount r) pt ct (apiKeyUsageDaily s) = Some (apiKeyUsageDaily s')
          \<and> jobs s' = jobs s \<and> subscribers s' = subscribers s \<and> delivered s' = delivered s
          \<and> publishLog s' = publishLog s \<and> nextCallback s' = nextCallback s)"
  using assms
  by (auto simp: usage_transaction_def Let_def list_ex_events_of_job split: if_splits option.splits)

text \<open>What \<^verbatim>\<open>completeJob\<close> does to the two ledger tables.\<close>

lemma completeJob_ledger:
  assumes "completeJob jobId r now dbNow s = (out, s')"
  shows "(usageEvents s' = usageEvents s \<and> apiKeyUsageDaily s' = apiKeyUsageDaily s
          \<and> (out = Resolved \<and> truthy (returned_apiKeyId jobId (jobs s)) \<longrightarrow> events_of_job jobId s \<noteq> []))
       \<or> (out = Resolved \<and> truthy (returned_apiKeyId jobId (jobs s)) \<and> events_of_job jobId s = []
          \<and> usageEvents s' = usageEvents s @
                [\<lparr>ue_apiKeyId = the (returned_apiKeyId jobId (jobs s)), ue_jobId = jobId,
                  ue_pages = r_pageCount r,
                  ue_promptTokens = fst (snd (snd (job_counts r))),
                  ue_completionTokens = snd (snd (snd (job_counts r))),
                  ue_model = r_llmModel r, ue_createdAt = dbNow\<rparr>]
          \<and> upsert_daily (the (returned_apiKeyId jobId (jobs s))) (toISODate now) (r_pageCount r)
                (fst (snd (snd (job_counts r)))) (snd (snd (snd (job_counts r))))
                (apiKeyUsageDaily s) = Some (apiKeyUsageDaily s'))"
proof (cases "complete_write_ok r")
  case False
  with assms show ?thesis by (auto simp: completeJob_def)
next
  case ok: True
  define s1 where "s1 = s\<lparr>jobs := update_jobs jobId (complete_write now r) (jobs s)\<rparr>"
  have l1: "usageEvents s1 = usageEvents s" "apiKeyUsageDaily s1 = apiKeyUsageDaily s"
    "events_of_job jobId s1 = events_of_job jobId s"
    by (simp_all add: s1_def events_of_job_def)
  show ?thesis
  proof (cases "truthy (returned_apiKeyId jobId (jobs s))")
    case False
    with assms ok show ?thesis by (auto simp: completeJob_def Let_def)
  next
    case True
    define k where "k = the (returned_apiKeyId jobId (jobs s))"
    define pt where "pt = fst (snd (snd (job_counts r)))"
    define ct where "ct = snd (snd (snd (job_counts r)))"
    obtain o2 s2 where t: "usage_transaction k jobId r (toISODate now) pt ct dbNow s1 = (o2, s2)"
      by (cases "usage_transaction k jobId r (toISODate now) pt ct dbNow s1")
    have res: "out = o2" "s' = (if o2 = Resolved then publishJobUpdate jobId
        (CompletedUpdate jobId (r_markdownResult r) (r_jsonResult r) (r_processingTimeMs r)) s2 else s2)"
      using assms ok True t
      by (auto simp: completeJob_def Let_def s1_def k_def pt_def ct_def job_counts_def
               split: outcome.splits)
    from usage_transaction_effect [OF t] show ?thesis
      using res True l1 by (auto simp: k_def pt_def ct_def)
  qed
qed

lemma same_key_daily_add [simp]: "same_key k d (daily_add p pt ct r) = same_key k d r"
  by (simp add: same_key_def daily_add_def)

lemma daily_key_daily_add [simp]: "daily_key (daily_add p pt ct r) = daily_key r"
  by (simp add: daily_key_def daily_add_def)

lemma same_key_daily_key: "same_key k d r \<longleftrightarrow> daily_key r = (k, d)"
  by (auto simp: same_key_def daily_key_def)

lemma find_map_daily_add:
  "find (same_key k d) (map (\<lambda>r. if same_key k d r then daily_add p pt ct r else r) rows)
     = map_option (daily_add p pt ct) (find (same_key k d) rows)"
  by (induction rows) auto

lemma find_map_daily_add_other:
  "(k', d') \<noteq> (k, d) \<Longrightarrow>
   find (same_key k' d') (map (\<lambda>r. if same_key k d r then daily_add p pt ct r else r) rows)
     = find (same_key k' d') rows"
  by (induction rows) (auto simp: same_key_def daily_add_def)

lemma find_snoc:
  "find P (xs @ [y]) = (case find P xs of None \<Rightarrow> (if P y then Some y else None) | Some x \<Rightarrow> Some x)"
  by (induction xs) auto

lemma find_None_list_ex: "find P xs = None \<longleftrightarrow> \<not> list_ex P xs"
  by (auto simp: find_None_iff list_ex_iff)

lemma upsert_daily_counts:
  assumes "upsert_daily k d p pt ct rows = Some rows'"
  shows "daily_counts k d rows' = add_counts (daily_counts k d rows) (p, 1, pt, ct)"
proof (cases "list_ex (same_key k d) rows")
  case True
  then obtain r where r: "find (same_key k d) rows = Some r"
    by (cases "find (same_key k d) rows") (auto simp: find_None_list_ex)
  from assms True have "rows' = map (\<lambda>r. if same_key k d r then daily_add p pt ct r else r) rows"
    by (auto simp: upsert_daily_def split: if_splits)
  then show ?thesis
    by (simp add: daily_counts_def find_map_daily_add r add_counts_def daily_add_def)
next
  case False
  then have n: "find (same_key k d) rows = None" by (simp add: find_None_list_ex)
  from assms False have "rows' = rows @ [\<lparr>d_apiKeyId = k, d_day = d, d_pages = p, d_jobsCount = 1,
                       d_promptTokens = pt, d_completionTokens = ct\<rparr>]"
    by (auto simp: upsert_daily_def)
  then show ?thesis
    by (simp add: daily_counts_def find_snoc n add_counts_def same_key_def)
qed

lemma upsert_daily_counts_other:
  assumes "upsert_daily k d p pt ct rows = Some rows'" and "(k', d') \<noteq> (k, d)"
  shows "daily_counts k' d' rows' = daily_counts k' d' rows"
proof (cases "list_ex (same_key k d) rows")
  case True
  with assms(1) have "rows' = map (\<lambda>r. if same_key k d r then daily_add p pt ct r else r) rows"
    by (auto simp: upsert_daily_def split: if_splits)
  then show ?thesis
    by (simp add: daily_counts_def find_map_daily_add_other [OF assms(2)])
next
  case False
  with assms(1) have "rows' = rows @ [\<lparr>d_apiKeyId = k, d_day = d, d_pages = p, d_jobsCount = 1,
                       d_promptTokens = pt, d_completionTokens = ct\<rparr>]"
    by (auto simp: upsert_daily_def)
  then show ?thesis
    using assms(2)
    by (auto simp: daily_counts_def find_snoc same_key_def split: option.splits)
qed

lemma list_ex_map_daily_add:
  "list_ex (same_key k d) (map (\<lambda>r. if same_key k d r then daily_add p pt ct r else r) rows)
     = list_ex (same_key k d) rows"
  by (induction rows) auto

lemma upsert_daily_has_row:
  assumes "upsert_daily k d p pt ct rows = Some rows'"
  shows "list_ex (same_key k d) rows'"
proof (cases "list_ex (same_key k d) rows")
  case True
  with assms have "rows' = map (\<lambda>r. if same_key k d r then daily_add p pt ct r else r) rows"
    by (auto simp: upsert_daily_def split: if_splits)
  with True show ?thesis by (simp add: list_ex_map_daily_add)
next
  case False
  with assms have "rows' = rows @ [\<lparr>d_apiKeyId = k, d_day = d, d_pages = p, d_jobsCount = 1,
                       d_promptTokens = pt, d_completionTokens = ct\<rparr>]"
    by (auto simp: upsert_daily_def)
  then show ?thesis by (simp add: same_key_def)
qed

lemma upsert_daily_changes:
  assumes "upsert_daily k d p pt ct rows = Some rows'"
  shows "rows' \<noteq> rows"
proof
  assume "rows' = rows"
  with upsert_daily_counts [OF assms]
  have "daily_counts k d rows = add_counts (daily_counts k d rows) (p, 1, pt, ct)" by simp
  then show False
    by (cases "daily_counts k d rows") (simp add: add_counts_def)
qed

lemma events_of_job_append:
  "usageEvents s' = usageEvents s @ [e] \<Longrightarrow>
   events_of_job jobId s' = events_of_job jobId s @ (if ue_jobId e = jobId then [e] else [])"
  by (simp add: events_of_job_def)

lemma distinct_filter_length:
  "distinct (map f xs) \<Longrightarrow> length (filter (\<lambda>x. f x = a) xs) \<le> 1"
proof (induction xs)
  case Nil
  then show ?case by simp
next
  case (Cons x xs)
  show ?case
  proof (cases "f x = a")
    case True
    with Cons.prems have "filter (\<lambda>x. f x = a) xs = []"
      by (auto simp: filter_empty_conv image_iff)
    with True show ?thesis by simp
  next
    case False
    with Cons show ?thesis by simp
  qed
qed

lemma distinct_events_of_job:
  "distinct (map ue_jobId (usageEvents s)) \<Longrightarrow> length (events_of_job jobId s) \<le> 1"
  unfolding events_of_job_def by (rule distinct_filter_length)

text \<open>A call for a job whose usage event exists leaves the ledger as it is.\<close>

lemma completeJob_recorded:
  assumes "events_of_job jobId s \<noteq> []"
  shows "usageEvents (snd (completeJob jobId r now dbNow s)) = usageEvents s
       \<and> apiKeyUsageDaily (snd (completeJob jobId r now dbNow s)) = apiKeyUsageDaily s"
  using completeJob_ledger [of jobId r now dbNow s "fst (completeJob jobId r now dbNow s)"
          "snd (completeJob jobId r now dbNow s)"] assms
  by auto

lemma run_completions_recorded:
  assumes "events_of_job jobId s \<noteq> []" and "list_all (\<lambda>c. fst c = jobId) calls"
  shows "usageEvents (run_completions calls s) = usageEvents s
       \<and> apiKeyUsageDaily (run_completions calls s) = apiKeyUsageDaily s"
  using assms
proof (induction calls arbitrary: s)
  case Nil
  then show ?case by simp
next
  case (Cons c calls)
  obtain j r now dbNow where c: "c = (j, r, now, dbNow)" by (cases c)
  with Cons.prems(2) have j: "j = jobId" by simp
  let ?s = "snd (completeJob jobId r now dbNow s)"
  note step = completeJob_recorded [OF Cons.prems(1), of r now dbNow]
  then have "events_of_job jobId ?s \<noteq> []"
    using Cons.prems(1) by (simp add: events_of_job_def)
  with Cons.prems(2) have "usageEvents (run_completions calls ?s) = usageEvents ?s
       \<and> apiKeyUsageDaily (run_completions calls ?s) = apiKeyUsageDaily ?s"
    by (intro Cons.IH) simp_all
  with step show ?case by (simp add: c j)
qed

lemma toISODate_examples:
  "toISODate 1762128000000 = (2025, 11, 3)"
  "toISODate 1762128000005 = (2025, 11, 3)"
  "toISODate 86399999 = (1970, 1, 1)"
  "toISODate 86400001 = (1970, 1, 2)"
  by code_simp+

lemma world0_owner:
  "find_job ''job_abc'' (jobs world0) = Some job_abc" "j_apiKeyId job_abc = Some ''ak_1''"
  by (simp_all add: find_job_def world0_def job_abc_def)

lemma completeJob_world0:
  "completeJob ''job_abc'' result_abc now dbNow world0 =
     (Resolved,
      \<lparr>jobs = [complete_write now result_abc job_abc],
       usageEvents = [\<lparr>ue_apiKeyId = ''ak_1'', ue_jobId = ''job_abc'', ue_pages = 2,
                       ue_promptTokens = 30, ue_completionTokens = 20, ue_model = None,
                       ue_createdAt = dbNow\<rparr>],
       apiKeyUsageDaily = [\<lparr>d_apiKeyId = ''ak_1'', d_day = toISODate now, d_pages = 2,
                            d_jobsCount = 1, d_promptTokens = 30, d_completionTokens = 20\<rparr>],
       subscribers = (\<lambda>_. {}), delivered = (\<lambda>_. []),
       publishLog = [(''job_abc'', CompletedUpdate ''job_abc'' ''# Hi'' None 1200)],
       nextCallback = 0\<rparr>)"
  by (simp add: completeJob_def Let_def complete_write_ok_def int4_ok_def int4_opt_ok_def
        result_abc_def update_jobs_def returned_apiKeyId_def truthy_def
        usage_transaction_def upsert_daily_def publishJobUpdate_def world0_def job_abc_def
        complete_write_def)

subsection \<open>Aggregate consistency\<close>

lemma events_on_snoc:
  "events_on key (es @ [e]) = events_on key es @ (if event_key e = key then [e] else [])"
  by (simp add: events_on_def)

lemma aggregate_matches_other:
  "event_key e \<noteq> daily_key r \<Longrightarrow> aggregate_matches (es @ [e]) r = aggregate_matches es r"
  by (simp add: aggregate_matches_def events_on_snoc)

lemma aggregate_matches_daily_add:
  assumes "aggregate_matches es r" and "event_key e = daily_key r"
  shows "aggregate_matches (es @ [e])
           (daily_add (ue_pages e) (ue_promptTokens e) (ue_completionTokens e) r)"
  using assms
  by (simp add: aggregate_matches_def events_on_snoc Let_def) (simp add: daily_add_def)

lemma events_on_uncovered:
  assumes "list_all (\<lambda>x. event_key x \<in> set (map daily_key rows)) es"
    and "key \<notin> set (map daily_key rows)"
  shows "events_on key es = []"
  using assms by (auto simp: events_on_def filter_empty_conv list_all_iff)

lemma upsert_daily_consistent:
  assumes u: "upsert_daily k d (ue_pages e) (ue_promptTokens e) (ue_completionTokens e) rows = Some rows'"
    and key: "event_key e = (k, d)"
    and dist: "distinct (map daily_key rows)"
    and m: "list_all (aggregate_matches es) rows"
    and cov: "list_all (\<lambda>x. event_key x \<in> set (map daily_key rows)) es"
  shows "distinct (map daily_key rows')
       \<and> list_all (aggregate_matches (es @ [e])) rows'
       \<and> list_all (\<lambda>x. event_key x \<in> set (map daily_key rows')) (es @ [e])"
proof (cases "list_ex (same_key k d) rows")
  case True
  let ?g = "\<lambda>r. if same_key k d r
                then daily_add (ue_pages e) (ue_promptTokens e) (ue_completionTokens e) r else r"
  from u True have rows': "rows' = map ?g rows"
    by (auto simp: upsert_daily_def split: if_splits)
  have keys: "map daily_key rows' = map daily_key rows"
    by (simp add: rows' comp_def)
  have each: "aggregate_matches (es @ [e]) (?g r)" if "r \<in> set rows" for r
  proof (cases "same_key k d r")
    case True
    then have "event_key e = daily_key r" by (simp add: key same_key_daily_key)
    moreover have "aggregate_matches es r" using m that by (simp add: list_all_iff)
    ultimately show ?thesis using True by (simp add: aggregate_matches_daily_add)
  next
    case False
    then have "event_key e \<noteq> daily_key r" by (simp add: key same_key_daily_key)
    moreover have "aggregate_matches es r" using m that by (simp add: list_all_iff)
    ultimately show ?thesis using False by (simp add: aggregate_matches_other)
  qed
  have a: "list_all (aggregate_matches (es @ [e])) rows'"
    unfolding list_all_iff
  proof
    fix x
    assume "x \<in> set rows'"
    then obtain r where "r \<in> set rows" and "x = ?g r"
      unfolding rows' set_map by blast
    with each [of r] show "aggregate_matches (es @ [e]) x" by simp
  qed
  have "(k, d) \<in> set (map daily_key rows)"
    using True by (force simp: list_ex_iff same_key_daily_key image_iff)
  with cov have c: "list_all (\<lambda>x. event_key x \<in> set (map daily_key rows')) (es @ [e])"
    by (simp add: keys key)
  from dist a c show ?thesis by (simp add: keys)
next
  case False
  let ?new = "\<lparr>d_apiKeyId = k, d_day = d, d_pages = ue_pages e, d_jobsCount = 1,
               d_promptTokens = ue_promptTokens e, d_completionTokens = ue_completionTokens e\<rparr>"
  from u False have rows': "rows' = rows @ [?new]"
    by (auto simp: upsert_daily_def)
  have nk: "daily_key ?new = (k, d)" by (simp add: daily_key_def)
  have absent: "(k, d) \<notin> set (map daily_key rows)"
    using False by (force simp: list_ex_iff same_key_daily_key image_iff)
  have none: "events_on (k, d) es = []"
    using cov absent by (rule events_on_uncovered)
  have old: "aggregate_matches (es @ [e]) r" if "r \<in> set rows" for r
  proof -
    have "daily_key r \<noteq> (k, d)" using that absent by (force simp: image_iff)
    then have "event_key e \<noteq> daily_key r" by (simp add: key)
    moreover have "aggregate_matches es r" using m that by (simp add: list_all_iff)
    ultimately show ?thesis by (simp add: aggregate_matches_other)
  qed
  have new: "aggregate_matches (es @ [e]) ?new"
    by (simp add: aggregate_matches_def nk events_on_snoc key none)
  have a: "list_all (aggregate_matches (es @ [e])) rows'"
    using old new by (simp add: rows' list_all_iff)
  have c: "list_all (\<lambda>x. event_key x \<in> set (map daily_key rows')) (es @ [e])"
    using cov by (auto simp: rows' nk key list_all_iff)
  have di: "distinct (map daily_key rows')"
    using dist absent by (simp add: rows' nk)
  from di a c show ?thesis by simp
qed

lemma completeJob_consistent:
  assumes "aggregates_consistent s" and "events_covered s"
    and day: "toISODate now = toISODate dbNow"
  shows "aggregates_consistent (snd (completeJob jobId r now dbNow s))
       \<and> events_covered (snd (completeJob jobId r now dbNow s))"
proof -
  let ?s' = "snd (completeJob jobId r now dbNow s)"
  let ?e = "\<lparr>ue_apiKeyId = the (returned_apiKeyId jobId (jobs s)), ue_jobId = jobId,
                  ue_pages = r_pageCount r,
                  ue_promptTokens = fst (snd (snd (job_counts r))),
                  ue_completionTokens = snd (snd (snd (job_counts r))),
                  ue_model = r_llmModel r, ue_createdAt = dbNow\<rparr>"
  note l = completeJob_ledger [OF prod.collapse [symmetric], of jobId r now dbNow s]
  show ?thesis
  proof (cases "usageEvents ?s' = usageEvents s \<and> apiKeyUsageDaily ?s' = apiKeyUsageDaily s")
    case True
    with assms(1,2) show ?thesis by (simp add: aggregates_consistent_def events_covered_def)
  next
    case False
    with l have e: "usageEvents ?s' = usageEvents s @ [?e]"
      and u: "upsert_daily (the (returned_apiKeyId jobId (jobs s))) (toISODate now) (ue_pages ?e)
                (ue_promptTokens ?e) (ue_completionTokens ?e)
                (apiKeyUsageDaily s) = Some (apiKeyUsageDaily ?s')"
      by auto
    have key: "event_key ?e = (the (returned_apiKeyId jobId (jobs s)), toISODate now)"
      by (simp add: event_key_def day)
    have dist: "distinct (map daily_key (apiKeyUsageDaily s))"
      and m: "list_all (aggregate_matches (usageEvents s)) (apiKeyUsageDaily s)"
      using assms(1) by (simp_all add: aggregates_consistent_def)
    have cov: "list_all (\<lambda>x. event_key x \<in> set (map daily_key (apiKeyUsageDaily s))) (usageEvents s)"
      using assms(2) by (simp add: events_covered_def)
    from upsert_daily_consistent [OF u key dist m cov]
    show ?thesis
      unfolding aggregates_consistent_def events_covered_def e by blast
  qed
qed

lemma world0_consistent: "aggregates_consistent world0" "events_covered world0"
  by (simp_all add: aggregates_consistent_def events_covered_def world0_def)

subsection \<open>The suspended open handler\<close>

text \<open>Resumed without interruption, the handler is \<open>jobsWebSocket_open\<close>.\<close>

lemma open_uninterrupted_eq:
  "open_uninterrupted (AwaitApiKey jobId apiKeyAuth session) ws s =
     jobsWebSocket_open jobId apiKeyAuth session ws s"
  by (simp add: open_uninterrupted_def jobsWebSocket_open_def resolve_identity_def Let_def
           split: option.splits)

text \<open>
  A connection closed after its \<^verbatim>\<open>open\<close> handler has ended: \<^verbatim>\<open>close\<close> removes exactly the
  callback of the connection from exactly its job, and closing right after opening
  restores the registry.
\<close>

lemma close_after_open_unsubscribes:
  assumes fresh: "bus_fresh s"
    and new: "wsData ws = None"
    and op: "jobsWebSocket_open jobId apiKeyAuth session ws s = (ws1, s1)"
    and sub: "wsData ws1 = Some d"
  shows "wd_jobId d = jobId \<and> wd_callback d \<in> subscribers s1 jobId
       \<and> subscribers (jobsWebSocket_close ws1 t) =
           (subscribers t)(jobId := subscribers t jobId - {wd_callback d})
       \<and> subscribers (jobsWebSocket_close ws1 s1) = subscribers s"
proof -
  obtain userId organizationId where
    d: "d = \<lparr>wd_jobId = jobId, wd_userId = userId, wd_organizationId = organizationId,
             wd_callback = nextCallback s\<rparr>"
    and s1: "s1 = subscribeToJob jobId (nextCallback s) (s\<lparr>nextCallback := Suc (nextCallback s)\<rparr>)"
    using open_subscribed [OF new op sub] by blast
  have notin: "nextCallback s \<notin> subscribers s j" for j
    using fresh by (auto simp: bus_fresh_def)
  have c2: "subscribers (jobsWebSocket_close ws1 t) =
           (subscribers t)(jobId := subscribers t jobId - {wd_callback d})" for t
    using sub d by (simp add: jobsWebSocket_close_def)
  have restored: "subscribers (jobsWebSocket_close ws1 s1) = subscribers s"
    using sub d notin [of jobId] by (auto simp: jobsWebSocket_close_def s1)
  show ?thesis using d c2 restored by (simp add: s1)
qed

subsection \<open>Accepted completions\<close>

lemma upsert_daily_accepts:
  assumes "list_all daily_row_ok
             (map (daily_add p pt ct) (filter (same_key k d) rows))"
  shows "upsert_daily k d p pt ct rows \<noteq> None"
  using assms by (simp add: upsert_daily_def)

lemma usage_transaction_resolves:
  assumes "int4_ok ct" "int4_ok (r_pageCount r)" "int4_ok pt"
    and "events_of_job jobId s = [] \<longrightarrow>
           list_all daily_row_ok
             (map (daily_add (r_pageCount r) pt ct) (filter (same_key k today) (apiKeyUsageDaily s)))"
  shows "fst (usage_transaction k jobId r today pt ct dbNow s) = Resolved"
proof (cases "events_of_job jobId s = []")
  case True
  with assms(4) obtain rows where
    "upsert_daily k today (r_pageCount r) pt ct (apiKeyUsageDaily s) = Some rows"
    using upsert_daily_accepts by blast
  with True assms(1-3) show ?thesis
    by (simp add: usage_transaction_def Let_def list_ex_events_of_job)
next
  case False
  with assms(1-3) show ?thesis
    by (simp add: usage_transaction_def Let_def list_ex_events_of_job)
qed

lemma completeJob_resolves:
  assumes vals: "usage_values_ok r"
    and room: "truthy (returned_apiKeyId jobId (jobs s)) \<and> events_of_job jobId s = [] \<longrightarrow>
           aggregate_has_room (the (returned_apiKeyId jobId (jobs s))) (toISODate now) r
             (apiKeyUsageDaily s)"
  shows "fst (completeJob jobId r now dbNow s) = Resolved"
proof -
  define s1 where "s1 = s\<lparr>jobs := update_jobs jobId (complete_write now r) (jobs s)\<rparr>"
  define k where "k = the (returned_apiKeyId jobId (jobs s))"
  define pt where "pt = (case r_llmUsage r of None \<Rightarrow> 0 | Some u \<Rightarrow> lu_promptTokens u)"
  define ct where "ct = (case r_llmUsage r of None \<Rightarrow> 0 | Some u \<Rightarrow> lu_completionTokens u)"
  have ok: "complete_write_ok r" "int4_ok pt" "int4_ok ct"
    using vals by (simp_all add: usage_values_ok_def job_counts_def pt_def ct_def)
  then have p: "int4_ok (r_pageCount r)" by (simp add: complete_write_ok_def)
  show ?thesis
  proof (cases "truthy (returned_apiKeyId jobId (jobs s))")
    case False
    with ok show ?thesis by (simp add: completeJob_def Let_def)
  next
    case True
    have e: "events_of_job jobId s1 = events_of_job jobId s"
      "apiKeyUsageDaily s1 = apiKeyUsageDaily s"
      by (simp_all add: s1_def events_of_job_def)
    have "events_of_job jobId s1 = [] \<longrightarrow>
           list_all daily_row_ok
             (map (daily_add (r_pageCount r) pt ct)
                  (filter (same_key k (toISODate now)) (apiKeyUsageDaily s1)))"
      using room True
      by (simp add: e aggregate_has_room_def job_counts_def k_def pt_def ct_def)
    from usage_transaction_resolves [OF ok(3) p ok(2) this, of dbNow]
    have "fst (usage_transaction k jobId r (toISODate now) pt ct dbNow s1) = Resolved" .
    then obtain s2 where "usage_transaction k jobId r (toISODate now) pt ct dbNow s1 = (Resolved, s2)"
      by (cases "usage_transaction k jobId r (toISODate now) pt ct dbNow s1") simp
    with ok True show ?thesis
      by (simp add: completeJob_def Let_def s1_def k_def pt_def ct_def)
  qed
qed

lemma run_completions_resolve:
  assumes "events_of_job jobId s \<noteq> []"
    and "list_all (\<lambda>(j, r, now, dbNow). j = jobId \<and> usage_values_ok r) calls"
  shows "list_all (\<lambda>out. out = Resolved) (completion_outcomes calls s)"
  using assms
proof (induction calls arbitrary: s)
  case Nil
  then show ?case by simp
next
  case (Cons c calls)
  obtain j r now dbNow where c: "c = (j, r, now, dbNow)" by (cases c)
  with Cons.prems(2) have j: "j = jobId" and v: "usage_values_ok r"
    and rest: "list_all (\<lambda>(j, r, now, dbNow). j = jobId \<and> usage_values_ok r) calls"
    by simp_all
  let ?s = "snd (completeJob jobId r now dbNow s)"
  have first: "fst (completeJob jobId r now dbNow s) = Resolved"
    using v Cons.prems(1) by (intro completeJob_resolves) simp_all
  have "events_of_job jobId ?s \<noteq> []"
    using completeJob_recorded [OF Cons.prems(1), of r now dbNow] Cons.prems(1)
    by (simp add: events_of_job_def)
  then have "list_all (\<lambda>out. out = Resolved) (completion_outcomes calls ?s)"
    using rest by (rule Cons.IH)
  with first show ?case by (simp add: c j)
qed

lemma world_two_eq:
  "world_two =
     \<lparr>jobs = [complete_write 1762128000000 result_abc job_abc, job_def],
      usageEvents = [\<lparr>ue_apiKeyId = ''ak_1'', ue_jobId = ''job_abc'', ue_pages = 2,
                      ue_promptTokens = 30, ue_completionTokens = 20, ue_model = None,
                      ue_createdAt = 1762128000005\<rparr>],
      apiKeyUsageDaily = [\<lparr>d_apiKeyId = ''ak_1'', d_day = (2025, 11, 3), d_pages = 2,
                           d_jobsCount = 1, d_promptTokens = 30, d_completionTokens = 20\<rparr>],
      subscribers = (\<lambda>_. {}), delivered = (\<lambda>_. []),
      publishLog = [(''job_abc'', CompletedUpdate ''job_abc'' ''# Hi'' None 1200)],
      nextCallback = 0\<rparr>"
  by (simp add: world_two_def completeJob_def Let_def complete_write_ok_def int4_ok_def
        int4_opt_ok_def result_abc_def update_jobs_def returned_apiKeyId_def truthy_def
        usage_transaction_def upsert_daily_def publishJobUpdate_def world0_def job_abc_def
        job_def_def complete_write_def toISODate_examples)

lemma toISODate_one_oclock: "toISODate 1762131600000 = (2025, 11, 3)"
  by code_simp

section \<open>Claims\<close>

text \<open>
  C6: every call of \<^verbatim>\<open>failJob\<close> adds exactly one to the stored retry count of the job,
  whatever \<open>shouldRetry\<close> is. The write is accepted whenever the incremented count fits
  the \<^verbatim>\<open>integer\<close> column.
\<close>

theorem failJob_increments_retryCount:
  assumes "find_job jobId (jobs s) = Some job"
    and "int4_ok (j_retryCount job + 1)"
  shows "\<exists>s' job'. failJob jobId errorCode errorMessage shouldRetry s = (Resolved, s')
           \<and> find_job jobId (jobs s') = Some job'
           \<and> j_retryCount job' = j_retryCount job + 1"
  using assms
  by (cases shouldRetry)
     (simp_all add: failJob_def Let_def find_job_update_jobs fail_write_def)

theorem failJob_increments_retryCount_witness:
  "find_job ''job_abc'' (jobs world0) = Some job_abc \<and> int4_ok (j_retryCount job_abc + 1)
   \<and> (\<exists>s' job'. failJob ''job_abc'' ''OCR_FAILED'' ''boom'' True world0 = (Resolved, s')
           \<and> find_job ''job_abc'' (jobs s') = Some job'
           \<and> j_retryCount job' = j_retryCount job_abc + 1)"
proof -
  have a: "find_job ''job_abc'' (jobs world0) = Some job_abc"
    by (simp add: find_job_def world0_def job_abc_def)
  have b: "int4_ok (j_retryCount job_abc + 1)"
    by (simp add: int4_ok_def job_abc_def)
  from failJob_increments_retryCount [OF a b] a b show ?thesis by blast
qed

text \<open>
  C4: a call of \<^verbatim>\<open>failJob\<close> that resolves publishes exactly one notification, of type
  \<^verbatim>\<open>error\<close>, when \<open>shouldRetry\<close> is false, and none of any type when it is true; in both
  cases the rows of the job are written with status \<^verbatim>\<open>failed\<close> and the error fields,
  and no other row changes.
\<close>

theorem failJob_notifies_iff_no_retry:
  assumes "failJob jobId errorCode errorMessage shouldRetry s = (Resolved, s')"
  shows "publishLog s' =
           publishLog s @ (if shouldRetry then [] else [(jobId, ErrorUpdate jobId errorMessage)])
       \<and> (\<forall>cb. delivered s' cb =
                 delivered s cb @ (if \<not> shouldRetry \<and> cb \<in> subscribers s jobId
                                   then [ErrorUpdate jobId errorMessage] else []))
       \<and> message_type (ErrorUpdate jobId errorMessage) = ''error''
       \<and> list_all (\<lambda>j. j_id j = jobId \<longrightarrow>
                        j_status j = failed \<and> j_errorCode j = Some errorCode
                        \<and> j_errorMessage j = Some errorMessage) (jobs s')
       \<and> filter (\<lambda>j. j_id j \<noteq> jobId) (jobs s') = filter (\<lambda>j. j_id j \<noteq> jobId) (jobs s)"
proof -
  define rc where "rc = (case find_job jobId (jobs s) of None \<Rightarrow> 0 | Some job \<Rightarrow> j_retryCount job) + 1"
  define s1 where "s1 = s\<lparr>jobs := update_jobs jobId (fail_write errorCode errorMessage rc) (jobs s)\<rparr>"
  have s': "s' = (if shouldRetry then s1 else publishJobUpdate jobId (ErrorUpdate jobId errorMessage) s1)"
    using assms by (auto simp: failJob_def Let_def rc_def s1_def split: if_splits)
  have w: "list_all (\<lambda>j. j_id j = jobId \<longrightarrow>
                        j_status j = failed \<and> j_errorCode j = Some errorCode
                        \<and> j_errorMessage j = Some errorMessage) (jobs s1)"
    unfolding s1_def by (simp add: list_all_update_jobs fail_write_def)
  have o: "filter (\<lambda>j. j_id j \<noteq> jobId) (jobs s1) = filter (\<lambda>j. j_id j \<noteq> jobId) (jobs s)"
    unfolding s1_def by (simp add: filter_other_update_jobs)
  have r: "publishLog s1 = publishLog s" "delivered s1 = delivered s" "subscribers s1 = subscribers s"
    by (simp_all add: s1_def)
  show ?thesis using w o r by (simp add: s')
qed

theorem failJob_notifies_iff_no_retry_witness:
  "failJob ''job_abc'' ''OCR_FAILED'' ''boom'' False world0
     = (Resolved, snd (failJob ''job_abc'' ''OCR_FAILED'' ''boom'' False world0))
   \<and> publishLog (snd (failJob ''job_abc'' ''OCR_FAILED'' ''boom'' False world0))
       = [(''job_abc'', ErrorUpdate ''job_abc'' ''boom'')]"
proof -
  have h: "failJob ''job_abc'' ''OCR_FAILED'' ''boom'' False world0
     = (Resolved, snd (failJob ''job_abc'' ''OCR_FAILED'' ''boom'' False world0))"
    by (simp add: failJob_def Let_def find_job_def world0_def job_abc_def int4_ok_def)
  from failJob_notifies_iff_no_retry [OF h] h show ?thesis
    by (simp add: world0_def)
qed

text \<open>
  C5, as stated, fails: the Job Store checks no transition. After \<^verbatim>\<open>completeJob\<close> the
  job is \<^verbatim>\<open>completed\<close>, and \<^verbatim>\<open>updateJobStatus\<close> takes it back to \<^verbatim>\<open>pending\<close>, which the
  state table does not allow.
\<close>

theorem status_regression_counterexample:
  "map j_status (jobs world_done) = [completed]
   \<and> map j_status (jobs (snd (updateJobStatus ''job_abc'' pending None world_done))) = [pending]
   \<and> \<not> spec_transition completed pending"
  by (simp add: world_done_jobs updateJobStatus_def status_write_ok_def Let_def update_jobs_def
        complete_write_def status_write_def job_abc_def)

text \<open>
  C5, amended: whenever its write of the job row is accepted, \<^verbatim>\<open>updateJobStatus\<close> sets
  the status of the job to the status the caller passes, \<^verbatim>\<open>completeJob\<close> sets it to
  \<^verbatim>\<open>completed\<close> and \<^verbatim>\<open>failJob\<close> sets it to \<^verbatim>\<open>failed\<close>, whatever the status was before;
  the rows of other jobs are not changed. Forward order is left to the callers.
\<close>

theorem job_store_overwrites_status:
  "(updateJobStatus jobId st data s = (Resolved, s1) \<longrightarrow>
      list_all (\<lambda>j. j_id j = jobId \<longrightarrow> j_status j = st) (jobs s1)
      \<and> filter (\<lambda>j. j_id j \<noteq> jobId) (jobs s1) = filter (\<lambda>j. j_id j \<noteq> jobId) (jobs s))
   \<and> (complete_write_ok result \<and> completeJob jobId result now dbNow s = (out, s2) \<longrightarrow>
      list_all (\<lambda>j. j_id j = jobId \<longrightarrow> j_status j = completed) (jobs s2)
      \<and> filter (\<lambda>j. j_id j \<noteq> jobId) (jobs s2) = filter (\<lambda>j. j_id j \<noteq> jobId) (jobs s))
   \<and> (failJob jobId errorCode errorMessage shouldRetry s = (Resolved, s3) \<longrightarrow>
      list_all (\<lambda>j. j_id j = jobId \<longrightarrow> j_status j = failed) (jobs s3)
      \<and> filter (\<lambda>j. j_id j \<noteq> jobId) (jobs s3) = filter (\<lambda>j. j_id j \<noteq> jobId) (jobs s))"
proof (intro conjI impI)
  assume a: "updateJobStatus jobId st data s = (Resolved, s1)"
  then have j: "jobs s1 = update_jobs jobId (status_write st data) (jobs s)"
    by (auto simp: updateJobStatus_def Let_def split: if_splits)
  show "list_all (\<lambda>j. j_id j = jobId \<longrightarrow> j_status j = st) (jobs s1)"
    unfolding j by (rule list_all_update_jobs) simp_all
  show "filter (\<lambda>j. j_id j \<noteq> jobId) (jobs s1) = filter (\<lambda>j. j_id j \<noteq> jobId) (jobs s)"
    unfolding j by (rule filter_other_update_jobs) simp
next
  assume a: "complete_write_ok result \<and> completeJob jobId result now dbNow s = (out, s2)"
  then have j: "jobs s2 = update_jobs jobId (complete_write now result) (jobs s)"
    using completeJob_jobs [of result jobId now dbNow s] by simp
  show "list_all (\<lambda>j. j_id j = jobId \<longrightarrow> j_status j = completed) (jobs s2)"
    unfolding j by (rule list_all_update_jobs) (simp_all add: complete_write_def)
  show "filter (\<lambda>j. j_id j \<noteq> jobId) (jobs s2) = filter (\<lambda>j. j_id j \<noteq> jobId) (jobs s)"
    unfolding j by (rule filter_other_update_jobs) simp
next
  assume a: "failJob jobId errorCode errorMessage shouldRetry s = (Resolved, s3)"
  then obtain rc where j: "jobs s3 = update_jobs jobId (fail_write errorCode errorMessage rc) (jobs s)"
    by (auto simp: failJob_def Let_def split: if_splits)
  show "list_all (\<lambda>j. j_id j = jobId \<longrightarrow> j_status j = failed) (jobs s3)"
    unfolding j by (rule list_all_update_jobs) (simp_all add: fail_write_def)
  show "filter (\<lambda>j. j_id j \<noteq> jobId) (jobs s3) = filter (\<lambda>j. j_id j \<noteq> jobId) (jobs s)"
    unfolding j by (rule filter_other_update_jobs) simp
qed

theorem job_store_overwrites_status_witness:
  "updateJobStatus ''job_abc'' pending None world_done
     = (Resolved, snd (updateJobStatus ''job_abc'' pending None world_done))
   \<and> list_all (\<lambda>j. j_id j = ''job_abc'' \<longrightarrow> j_status j = pending)
        (jobs (snd (updateJobStatus ''job_abc'' pending None world_done)))
   \<and> complete_write_ok result_abc
   \<and> list_all (\<lambda>j. j_id j = ''job_abc'' \<longrightarrow> j_status j = completed)
        (jobs (snd (completeJob ''job_abc'' result_abc 1762128000000 1762128000005 world0)))
   \<and> failJob ''job_abc'' ''OCR_FAILED'' ''boom'' True world_done
     = (Resolved, snd (failJob ''job_abc'' ''OCR_FAILED'' ''boom'' True world_done))
   \<and> list_all (\<lambda>j. j_id j = ''job_abc'' \<longrightarrow> j_status j = failed)
        (jobs (snd (failJob ''job_abc'' ''OCR_FAILED'' ''boom'' True world_done)))"
proof -
  have u: "updateJobStatus ''job_abc'' pending None world_done
     = (Resolved, snd (updateJobStatus ''job_abc'' pending None world_done))"
    by (simp add: updateJobStatus_def status_write_ok_def Let_def)
  have c: "completeJob ''job_abc'' result_abc 1762128000000 1762128000005 world0
     = (fst (completeJob ''job_abc'' result_abc 1762128000000 1762128000005 world0),
        snd (completeJob ''job_abc'' result_abc 1762128000000 1762128000005 world0))"
    by simp
  have f: "failJob ''job_abc'' ''OCR_FAILED'' ''boom'' True world_done
     = (Resolved, snd (failJob ''job_abc'' ''OCR_FAILED'' ''boom'' True world_done))"
    by (simp add: failJob_def Let_def find_job_def world_done_jobs complete_write_def job_abc_def int4_ok_def)
  from job_store_overwrites_status
         [of "''job_abc''" pending None world_done
            "snd (updateJobStatus ''job_abc'' pending None world_done)"
            result_abc 1762128000000 1762128000005
            "fst (completeJob ''job_abc'' result_abc 1762128000000 1762128000005 world0)"
            "snd (completeJob ''job_abc'' result_abc 1762128000000 1762128000005 world0)"]
  have 1: "list_all (\<lambda>j. j_id j = ''job_abc'' \<longrightarrow> j_status j = pending)
        (jobs (snd (updateJobStatus ''job_abc'' pending None world_done)))"
    using u by blast
  from job_store_overwrites_status
         [of "''job_abc''" pending None world0 world0
            result_abc 1762128000000 1762128000005
            "fst (completeJob ''job_abc'' result_abc 1762128000000 1762128000005 world0)"
            "snd (completeJob ''job_abc'' result_abc 1762128000000 1762128000005 world0)"]
  have 2: "list_all (\<lambda>j. j_id j = ''job_abc'' \<longrightarrow> j_status j = completed)
        (jobs (snd (completeJob ''job_abc'' result_abc 1762128000000 1762128000005 world0)))"
    using c result_abc_ok by blast
  from job_store_overwrites_status
         [of "''job_abc''" pending None world_done world0
            result_abc 1762128000000 1762128000005 Resolved world0
            "''OCR_FAILED''" "''boom''" True
            "snd (failJob ''job_abc'' ''OCR_FAILED'' ''boom'' True world_done)"]
  have 3: "list_all (\<lambda>j. j_id j = ''job_abc'' \<longrightarrow> j_status j = failed)
        (jobs (snd (failJob ''job_abc'' ''OCR_FAILED'' ''boom'' True world_done)))"
    using f by blast
  from u 1 result_abc_ok 2 f 3 show ?thesis by blast
qed



text \<open>
  C7: the gateway authorizes by one lookup of a row with both the requested job
  identifier and the caller's organization. When no row matches, it sends the error
  \<^verbatim>\<open>Job not found\<close>, closes the socket, sets no connection data and leaves the Bus as it
  was; the answer is the same in any two states without a match, so a missing job and
  a job of another organization cannot be told apart.
\<close>

theorem open_rejects_unmatched_job:
  assumes "resolve_identity apiKeyAuth session = Some (userId, organizationId)"
    and "find (\<lambda>j. j_id j = jobId \<and> j_organizationId j = organizationId) (jobs s) = None"
    and "find (\<lambda>j. j_id j = jobId \<and> j_organizationId j = organizationId) (jobs s') = None"
  shows "jobsWebSocket_open jobId apiKeyAuth session ws s =
           (ws\<lparr>sent := sent ws @ [ConnectionError ''Job not found''], closed := True\<rparr>, s)
       \<and> fst (jobsWebSocket_open jobId apiKeyAuth session ws s') =
           fst (jobsWebSocket_open jobId apiKeyAuth session ws s)"
  using assms by (simp add: jobsWebSocket_open_def)

theorem open_rejects_unmatched_job_witness:
  "resolve_identity (Some key_org_b) None = Some (''user_2'', ''org_b'')
   \<and> find_job ''job_abc'' (jobs world0) = Some job_abc
   \<and> find_job ''job_abc'' (jobs (world0\<lparr>jobs := []\<rparr>)) = None
   \<and> jobsWebSocket_open ''job_abc'' (Some key_org_b) None fresh_socket world0 =
       (\<lparr>sent = [ConnectionError ''Job not found''], closed = True, wsData = None\<rparr>, world0)
   \<and> fst (jobsWebSocket_open ''job_abc'' (Some key_org_b) None fresh_socket (world0\<lparr>jobs := []\<rparr>)) =
       \<lparr>sent = [ConnectionError ''Job not found''], closed = True, wsData = None\<rparr>"
proof -
  have i: "resolve_identity (Some key_org_b) None = Some (''user_2'', ''org_b'')"
    by (simp add: resolve_identity_def key_org_b_def)
  have a: "find (\<lambda>j. j_id j = ''job_abc'' \<and> j_organizationId j = ''org_b'') (jobs world0) = None"
    by (simp add: world0_def job_abc_def)
  have b: "find (\<lambda>j. j_id j = ''job_abc'' \<and> j_organizationId j = ''org_b'')
             (jobs (world0\<lparr>jobs := []\<rparr>)) = None"
    by simp
  show ?thesis
    using i open_rejects_unmatched_job [OF i a b, of fresh_socket]
    by (simp add: fresh_socket_def find_job_def) (simp add: world0_def job_abc_def)
qed

text \<open>
  C3, as stated, fails: the write of the job row is its own statement, committed before
  the transaction of the ledger starts. With a prompt token count that the
  \<^verbatim>\<open>integer\<close> column rejects, the transaction fails and \<^verbatim>\<open>completeJob\<close> throws, yet the
  job row stays \<^verbatim>\<open>completed\<close> with no usage event and no aggregate.
\<close>

theorem usage_commit_counterexample:
  "completeJob ''job_abc'' result_big 1762128000000 1762128000005 world0
     = (Rejected NumericValueOutOfRange,
        world0\<lparr>jobs := [complete_write 1762128000000 result_big job_abc]\<rparr>)
   \<and> j_status (complete_write 1762128000000 result_big job_abc) = completed
   \<and> usageEvents (world0\<lparr>jobs := [complete_write 1762128000000 result_big job_abc]\<rparr>) = []
   \<and> apiKeyUsageDaily (world0\<lparr>jobs := [complete_write 1762128000000 result_big job_abc]\<rparr>) = []"
  by (simp add: completeJob_def Let_def complete_write_ok_def int4_ok_def int4_opt_ok_def
        result_big_def result_abc_def update_jobs_def returned_apiKeyId_def truthy_def
        usage_transaction_def)
     (simp add: world0_def job_abc_def complete_write_def)

text \<open>
  C3, amended: in \<^verbatim>\<open>completeJob\<close> the insert of the usage event and the upsert of the
  daily aggregate take effect together or not at all, at most one event per call; the
  write of the job row is a separate unit that commits first, whenever its values are
  accepted, and stays when the ledger's transaction fails.
\<close>

theorem usage_ledger_atomic:
  assumes "completeJob jobId result now dbNow s = (out, s')"
  shows "(usageEvents s' \<noteq> usageEvents s \<longleftrightarrow> apiKeyUsageDaily s' \<noteq> apiKeyUsageDaily s)
       \<and> length (usageEvents s') \<le> length (usageEvents s) + 1
       \<and> (complete_write_ok result \<longrightarrow>
            jobs s' = update_jobs jobId (complete_write now result) (jobs s))
       \<and> (out \<noteq> Resolved \<longrightarrow>
            usageEvents s' = usageEvents s \<and> apiKeyUsageDaily s' = apiKeyUsageDaily s)"
proof -
  note l = completeJob_ledger [OF assms]
  have a: "usageEvents s' \<noteq> usageEvents s \<longleftrightarrow> apiKeyUsageDaily s' \<noteq> apiKeyUsageDaily s"
    using l upsert_daily_changes by fastforce
  have b: "length (usageEvents s') \<le> length (usageEvents s) + 1"
    using l by auto
  have c: "complete_write_ok result \<longrightarrow>
            jobs s' = update_jobs jobId (complete_write now result) (jobs s)"
    using completeJob_jobs [of result jobId now dbNow s] assms by simp
  have d: "out \<noteq> Resolved \<longrightarrow>
            usageEvents s' = usageEvents s \<and> apiKeyUsageDaily s' = apiKeyUsageDaily s"
    using l by auto
  from a b c d show ?thesis by blast
qed

theorem usage_ledger_atomic_witness:
  "usageEvents world_done \<noteq> usageEvents world0 \<and> apiKeyUsageDaily world_done \<noteq> apiKeyUsageDaily world0
   \<and> length (usageEvents world_done) \<le> length (usageEvents world0) + 1
   \<and> complete_write_ok result_abc
   \<and> jobs world_done = update_jobs ''job_abc'' (complete_write 1762128000000 result_abc) (jobs world0)"
proof -
  have f: "completeJob ''job_abc'' result_abc 1762128000000 1762128000005 world0 = (Resolved, world_done)"
    by (simp add: world_done_def completeJob_world0)
  have n: "usageEvents world_done \<noteq> usageEvents world0"
    by (simp add: world_done_def completeJob_world0) (simp add: world0_def)
  from usage_ledger_atomic [OF f] n result_abc_ok show ?thesis by simp
qed

text \<open>
  C10: when \<^verbatim>\<open>completeJob\<close> records usage, the day of the aggregate it increments is the
  UTC date of the instant it read at its start, which is also the \<^verbatim>\<open>completedAt\<close> it
  wrote on the job; no aggregate of another key or day changes, and the instant of
  the database, which stamps the usage event, plays no part.
\<close>

theorem aggregate_day_is_completion_date:
  assumes "find_job jobId (jobs s) = Some job" "j_apiKeyId job = Some apiKeyId" "apiKeyId \<noteq> []"
    and "events_of_job jobId s = []"
    and "completeJob jobId result now dbNow s = (Resolved, s1)"
  shows "(\<exists>job1. find_job jobId (jobs s1) = Some job1 \<and> j_completedAt job1 = Some now)
       \<and> list_ex (same_key apiKeyId (toISODate now)) (apiKeyUsageDaily s1)
       \<and> daily_counts apiKeyId (toISODate now) (apiKeyUsageDaily s1) =
           add_counts (daily_counts apiKeyId (toISODate now) (apiKeyUsageDaily s)) (job_counts result)
       \<and> (\<forall>k d. (k, d) \<noteq> (apiKeyId, toISODate now) \<longrightarrow>
              daily_counts k d (apiKeyUsageDaily s1) = daily_counts k d (apiKeyUsageDaily s))
       \<and> usageEvents s1 \<noteq> [] \<and> ue_createdAt (last (usageEvents s1)) = dbNow"
proof -
  have k: "returned_apiKeyId jobId (jobs s) = Some apiKeyId"
    using assms(1,2) by (simp add: returned_apiKeyId_find_job)
  then have t: "truthy (returned_apiKeyId jobId (jobs s))"
    using assms(3) by (simp add: truthy_def)
  have ok: "complete_write_ok result"
    using assms(5) by (auto simp: completeJob_def split: if_splits)
  have j: "jobs s1 = update_jobs jobId (complete_write now result) (jobs s)"
    using completeJob_jobs [OF ok, of jobId now dbNow s] assms(5) by simp
  have a: "\<exists>job1. find_job jobId (jobs s1) = Some job1 \<and> j_completedAt job1 = Some now"
    by (simp add: j find_job_update_jobs assms(1) complete_write_def)
  from completeJob_ledger [OF assms(5)] t assms(4)
  have e: "usageEvents s1 = usageEvents s @
                [\<lparr>ue_apiKeyId = apiKeyId, ue_jobId = jobId,
                  ue_pages = r_pageCount result,
                  ue_promptTokens = fst (snd (snd (job_counts result))),
                  ue_completionTokens = snd (snd (snd (job_counts result))),
                  ue_model = r_llmModel result, ue_createdAt = dbNow\<rparr>]"
    and u: "upsert_daily apiKeyId (toISODate now) (r_pageCount result)
                (fst (snd (snd (job_counts result)))) (snd (snd (snd (job_counts result))))
                (apiKeyUsageDaily s) = Some (apiKeyUsageDaily s1)"
    by (auto simp: k)
  have b: "list_ex (same_key apiKeyId (toISODate now)) (apiKeyUsageDaily s1)"
    using u by (rule upsert_daily_has_row)
  have c: "daily_counts apiKeyId (toISODate now) (apiKeyUsageDaily s1) =
           add_counts (daily_counts apiKeyId (toISODate now) (apiKeyUsageDaily s)) (job_counts result)"
    using upsert_daily_counts [OF u] by (simp add: job_counts_def)
  have d: "\<forall>k d. (k, d) \<noteq> (apiKeyId, toISODate now) \<longrightarrow>
              daily_counts k d (apiKeyUsageDaily s1) = daily_counts k d (apiKeyUsageDaily s)"
    using upsert_daily_counts_other [OF u] by blast
  from a b c d e show ?thesis by simp
qed

theorem aggregate_day_is_completion_date_witness:
  "find_job ''job_abc'' (jobs world0) = Some job_abc \<and> j_apiKeyId job_abc = Some ''ak_1''
   \<and> events_of_job ''job_abc'' world0 = []
   \<and> completeJob ''job_abc'' result_abc 86399999 86400001 world0 = (Resolved, world_midnight)
   \<and> toISODate 86399999 = (1970, 1, 1) \<and> toISODate 86400001 = (1970, 1, 2)
   \<and> list_ex (same_key ''ak_1'' (1970, 1, 1)) (apiKeyUsageDaily world_midnight)
   \<and> daily_counts ''ak_1'' (1970, 1, 1) (apiKeyUsageDaily world_midnight) = (2, 1, 30, 20)
   \<and> daily_counts ''ak_1'' (1970, 1, 2) (apiKeyUsageDaily world_midnight) = (0, 0, 0, 0)
   \<and> ue_createdAt (last (usageEvents world_midnight)) = 86400001"
proof -
  have n: "''ak_1'' \<noteq> []" by simp
  have e: "events_of_job ''job_abc'' world0 = []" by (simp add: events_of_job_def world0_def)
  have f: "completeJob ''job_abc'' result_abc 86399999 86400001 world0 = (Resolved, world_midnight)"
    by (simp add: world_midnight_def completeJob_world0)
  have z: "daily_counts ''ak_1'' d (apiKeyUsageDaily world0) = (0, 0, 0, 0)" for d
    by (simp add: daily_counts_def world0_def)
  from aggregate_day_is_completion_date [OF world0_owner n e f]
  have "list_ex (same_key ''ak_1'' (toISODate 86399999)) (apiKeyUsageDaily world_midnight)"
    and "daily_counts ''ak_1'' (toISODate 86399999) (apiKeyUsageDaily world_midnight) =
           add_counts (daily_counts ''ak_1'' (toISODate 86399999) (apiKeyUsageDaily world0))
             (job_counts result_abc)"
    and "(''ak_1'', (1970, 1, 2)) \<noteq> (''ak_1'', toISODate 86399999) \<longrightarrow>
           daily_counts ''ak_1'' (1970, 1, 2) (apiKeyUsageDaily world_midnight)
             = daily_counts ''ak_1'' (1970, 1, 2) (apiKeyUsageDaily world0)"
    and "ue_createdAt (last (usageEvents world_midnight)) = 86400001"
    by blast+
  then show ?thesis
    using world0_owner e f
    by (simp add: toISODate_examples z add_counts_def job_counts_def result_abc_def)
qed

text \<open>
  C2, as stated, fails: the aggregate is keyed by the UTC date of the instant
  \<^verbatim>\<open>completeJob\<close> read at its start, while a usage event is created when the database
  inserts it. A completion one millisecond before midnight whose event is inserted
  just after midnight leaves the aggregate of the first day at 2 pages and 1 job,
  with no usage event created on that day.
\<close>

theorem aggregate_consistency_counterexample:
  "aggregates_consistent world0
   \<and> \<not> aggregates_consistent (run_completions [(''job_abc'', result_abc, 86399999, 86400001)] world0)
   \<and> daily_counts ''ak_1'' (1970, 1, 1)
        (apiKeyUsageDaily (run_completions [(''job_abc'', result_abc, 86399999, 86400001)] world0))
      = (2, 1, 30, 20)
   \<and> events_on (''ak_1'', (1970, 1, 1))
        (usageEvents (run_completions [(''job_abc'', result_abc, 86399999, 86400001)] world0)) = []"
  using world0_consistent(1)
  by (simp add: completeJob_world0 toISODate_examples aggregates_consistent_def
        aggregate_matches_def events_on_def event_key_def daily_key_def daily_counts_def
        same_key_def)

text \<open>
  C2, amended: starting from a ledger in which every aggregate row equals the sums of
  the usage events of its key created on its day (at most one row per pair, every
  event counted in a row), after any sequence of \<^verbatim>\<open>completeJob\<close> calls in each of which
  the database clock reads the same UTC date as the instant the call read at its
  start, the same holds again.
\<close>

theorem aggregates_consistent_same_day:
  assumes "aggregates_consistent s" and "events_covered s"
    and "list_all (\<lambda>(jobId, result, now, dbNow). toISODate now = toISODate dbNow) calls"
  shows "aggregates_consistent (run_completions calls s)
       \<and> events_covered (run_completions calls s)"
  using assms
proof (induction calls arbitrary: s)
  case Nil
  then show ?case by simp
next
  case (Cons c calls)
  obtain jobId r now dbNow where c: "c = (jobId, r, now, dbNow)" by (cases c)
  from Cons.prems(3) have day: "toISODate now = toISODate dbNow"
    and rest: "list_all (\<lambda>(jobId, result, now, dbNow). toISODate now = toISODate dbNow) calls"
    by (simp_all add: c)
  from completeJob_consistent [OF Cons.prems(1,2) day, of jobId r]
  have "aggregates_consistent (run_completions calls (snd (completeJob jobId r now dbNow s)))
       \<and> events_covered (run_completions calls (snd (completeJob jobId r now dbNow s)))"
    using rest by (intro Cons.IH) simp_all
  then show ?case by (simp add: c)
qed

theorem aggregates_consistent_same_day_witness:
  "aggregates_consistent world0 \<and> events_covered world0
   \<and> list_all (\<lambda>(jobId, result, now, dbNow). toISODate now = toISODate dbNow)
        [(''job_abc'', result_abc, 1762128000000, 1762128000005)]
   \<and> aggregates_consistent
        (run_completions [(''job_abc'', result_abc, 1762128000000, 1762128000005)] world0)
   \<and> apiKeyUsageDaily
        (run_completions [(''job_abc'', result_abc, 1762128000000, 1762128000005)] world0)
      = [\<lparr>d_apiKeyId = ''ak_1'', d_day = (2025, 11, 3), d_pages = 2, d_jobsCount = 1,
          d_promptTokens = 30, d_completionTokens = 20\<rparr>]"
proof -
  have d: "list_all (\<lambda>(jobId, result, now, dbNow). toISODate now = toISODate dbNow)
        [(''job_abc'', result_abc, 1762128000000, 1762128000005)]"
    by (simp add: toISODate_examples)
  from aggregates_consistent_same_day [OF world0_consistent d] world0_consistent d
  show ?thesis by (simp add: completeJob_world0 toISODate_examples)
qed

text \<open>
  C1: for a job owned by an API key and a result whose counts the database accepts,
  \<^verbatim>\<open>completeJob\<close> resolves, and afterwards there is exactly one usage event of the job.
  When the job had no event, the call appends the event, whatever else the ledger
  holds, and adds the job's counts to the aggregate of (apiKeyId, today), creating the
  row when it is absent and leaving every other aggregate alone; when the job had an
  event, both tables stay as they are. Every further call for the same job resolves as
  well (the duplicate insert is ignored without error) and changes neither the usage
  events nor the aggregates. The uniqueness of \<^verbatim>\<open>usage_events.job_id\<close> is the table's
  constraint.
\<close>

theorem completeJob_idempotent_accounting:
  assumes unique: "distinct (map ue_jobId (usageEvents s))"
    and owner: "find_job jobId (jobs s) = Some job" "j_apiKeyId job = Some apiKeyId" "apiKeyId \<noteq> []"
    and vals: "usage_values_ok result"
    and room: "events_of_job jobId s = [] \<longrightarrow>
                 aggregate_has_room apiKeyId (toISODate now) result (apiKeyUsageDaily s)"
    and again: "list_all (\<lambda>(j, r, t, t'). j = jobId \<and> usage_values_ok r) calls"
  shows "\<exists>s1. completeJob jobId result now dbNow s = (Resolved, s1)
       \<and> length (events_of_job jobId s1) = 1
       \<and> (if events_of_job jobId s = []
          then usageEvents s1 = usageEvents s @
                 [\<lparr>ue_apiKeyId = apiKeyId, ue_jobId = jobId, ue_pages = r_pageCount result,
                   ue_promptTokens = fst (snd (snd (job_counts result))),
                   ue_completionTokens = snd (snd (snd (job_counts result))),
                   ue_model = r_llmModel result, ue_createdAt = dbNow\<rparr>]
               \<and> daily_counts apiKeyId (toISODate now) (apiKeyUsageDaily s1) =
                   add_counts (daily_counts apiKeyId (toISODate now) (apiKeyUsageDaily s))
                     (job_counts result)
               \<and> (\<forall>k d. (k, d) \<noteq> (apiKeyId, toISODate now) \<longrightarrow>
                     daily_counts k d (apiKeyUsageDaily s1) = daily_counts k d (apiKeyUsageDaily s))
          else usageEvents s1 = usageEvents s \<and> apiKeyUsageDaily s1 = apiKeyUsageDaily s)
       \<and> list_all (\<lambda>out. out = Resolved) (completion_outcomes calls s1)
       \<and> usageEvents (run_completions calls s1) = usageEvents s1
       \<and> apiKeyUsageDaily (run_completions calls s1) = apiKeyUsageDaily s1"
proof -
  have k: "returned_apiKeyId jobId (jobs s) = Some apiKeyId"
    using owner by (simp add: returned_apiKeyId_find_job)
  then have t: "truthy (returned_apiKeyId jobId (jobs s))"
    using owner(3) by (simp add: truthy_def)
  have "fst (completeJob jobId result now dbNow s) = Resolved"
    using vals room by (intro completeJob_resolves) (simp_all add: k)
  then obtain s1 where first: "completeJob jobId result now dbNow s = (Resolved, s1)"
    by (cases "completeJob jobId result now dbNow s") simp
  have le: "length (events_of_job jobId s) \<le> 1"
    using unique by (rule distinct_events_of_job)
  note l = completeJob_ledger [OF first]
  have iff: "if events_of_job jobId s = []
          then usageEvents s1 = usageEvents s @
                 [\<lparr>ue_apiKeyId = apiKeyId, ue_jobId = jobId, ue_pages = r_pageCount result,
                   ue_promptTokens = fst (snd (snd (job_counts result))),
                   ue_completionTokens = snd (snd (snd (job_counts result))),
                   ue_model = r_llmModel result, ue_createdAt = dbNow\<rparr>]
               \<and> daily_counts apiKeyId (toISODate now) (apiKeyUsageDaily s1) =
                   add_counts (daily_counts apiKeyId (toISODate now) (apiKeyUsageDaily s))
                     (job_counts result)
               \<and> (\<forall>k d. (k, d) \<noteq> (apiKeyId, toISODate now) \<longrightarrow>
                     daily_counts k d (apiKeyUsageDaily s1) = daily_counts k d (apiKeyUsageDaily s))
          else usageEvents s1 = usageEvents s \<and> apiKeyUsageDaily s1 = apiKeyUsageDaily s"
  proof (cases "events_of_job jobId s = []")
    case True
    with l t have e: "usageEvents s1 = usageEvents s @
                 [\<lparr>ue_apiKeyId = apiKeyId, ue_jobId = jobId, ue_pages = r_pageCount result,
                   ue_promptTokens = fst (snd (snd (job_counts result))),
                   ue_completionTokens = snd (snd (snd (job_counts result))),
                   ue_model = r_llmModel result, ue_createdAt = dbNow\<rparr>]"
      and u: "upsert_daily apiKeyId (toISODate now) (r_pageCount result)
                (fst (snd (snd (job_counts result)))) (snd (snd (snd (job_counts result))))
                (apiKeyUsageDaily s) = Some (apiKeyUsageDaily s1)"
      by (auto simp: k)
    have c: "daily_counts apiKeyId (toISODate now) (apiKeyUsageDaily s1) =
                   add_counts (daily_counts apiKeyId (toISODate now) (apiKeyUsageDaily s))
                     (job_counts result)"
      using upsert_daily_counts [OF u] by (simp add: job_counts_def)
    have d: "\<forall>k d. (k, d) \<noteq> (apiKeyId, toISODate now) \<longrightarrow>
              daily_counts k d (apiKeyUsageDaily s1) = daily_counts k d (apiKeyUsageDaily s)"
      using upsert_daily_counts_other [OF u] by blast
    from True e c d show ?thesis by simp
  next
    case False
    with l show ?thesis by auto
  qed
  have one: "length (events_of_job jobId s1) = 1"
  proof (cases "events_of_job jobId s = []")
    case True
    with iff have "usageEvents s1 = usageEvents s @
                 [\<lparr>ue_apiKeyId = apiKeyId, ue_jobId = jobId, ue_pages = r_pageCount result,
                   ue_promptTokens = fst (snd (snd (job_counts result))),
                   ue_completionTokens = snd (snd (snd (job_counts result))),
                   ue_model = r_llmModel result, ue_createdAt = dbNow\<rparr>]"
      by simp
    from events_of_job_append [OF this, of jobId] True show ?thesis by simp
  next
    case False
    with iff have "usageEvents s1 = usageEvents s" by simp
    then have "events_of_job jobId s1 = events_of_job jobId s" by (simp add: events_of_job_def)
    with False le show ?thesis by (cases "events_of_job jobId s") auto
  qed
  then have ne: "events_of_job jobId s1 \<noteq> []" by auto
  have same: "list_all (\<lambda>c. fst c = jobId) calls"
    using again by (auto simp: list_all_iff)
  from run_completions_recorded [OF ne same] run_completions_resolve [OF ne again] first one iff
  show ?thesis by blast
qed

theorem completeJob_idempotent_accounting_witness:
  "distinct (map ue_jobId (usageEvents world_two))
   \<and> length (usageEvents world_two) = 1
   \<and> daily_counts ''ak_1'' (2025, 11, 3) (apiKeyUsageDaily world_two) = (2, 1, 30, 20)
   \<and> find_job ''job_def'' (jobs world_two) = Some job_def \<and> j_apiKeyId job_def = Some ''ak_1''
   \<and> usage_values_ok result_abc
   \<and> events_of_job ''job_def'' world_two = []
   \<and> aggregate_has_room ''ak_1'' (toISODate 1762131600000) result_abc (apiKeyUsageDaily world_two)
   \<and> (\<exists>s1. completeJob ''job_def'' result_abc 1762131600000 1762131600007 world_two = (Resolved, s1)
         \<and> length (events_of_job ''job_def'' s1) = 1
         \<and> length (usageEvents s1) = 2
         \<and> daily_counts ''ak_1'' (2025, 11, 3) (apiKeyUsageDaily s1) = (4, 2, 60, 40)
         \<and> completion_outcomes [(''job_def'', result_abc, 1762131600000, 1762131600007),
                                 (''job_def'', result_abc, 1762135200000, 1762135200007)] s1
             = [Resolved, Resolved]
         \<and> usageEvents (run_completions [(''job_def'', result_abc, 1762131600000, 1762131600007),
                                 (''job_def'', result_abc, 1762135200000, 1762135200007)] s1)
             = usageEvents s1
         \<and> apiKeyUsageDaily (run_completions [(''job_def'', result_abc, 1762131600000, 1762131600007),
                                 (''job_def'', result_abc, 1762135200000, 1762135200007)] s1)
             = apiKeyUsageDaily s1)"
proof -
  let ?calls = "[(''job_def'', result_abc, 1762131600000, 1762131600007),
                 (''job_def'', result_abc, 1762135200000, 1762135200007)]"
  have u: "distinct (map ue_jobId (usageEvents world_two))" by (simp add: world_two_eq)
  have len: "length (usageEvents world_two) = 1" by (simp add: world_two_eq)
  have dc: "daily_counts ''ak_1'' (2025, 11, 3) (apiKeyUsageDaily world_two) = (2, 1, 30, 20)"
    by (simp add: world_two_eq daily_counts_def same_key_def)
  have o1: "find_job ''job_def'' (jobs world_two) = Some job_def"
    by (simp add: world_two_eq find_job_def complete_write_def job_abc_def job_def_def)
  have o2: "j_apiKeyId job_def = Some ''ak_1''" by (simp add: job_def_def job_abc_def)
  have n: "''ak_1'' \<noteq> []" by simp
  have v: "usage_values_ok result_abc"
    using result_abc_ok by (simp add: usage_values_ok_def job_counts_def) (simp add: result_abc_def int4_ok_def)
  have e: "events_of_job ''job_def'' world_two = []"
    by (simp add: events_of_job_def world_two_eq)
  have room: "aggregate_has_room ''ak_1'' (toISODate 1762131600000) result_abc
                (apiKeyUsageDaily world_two)"
    by (simp add: aggregate_has_room_def job_counts_def result_abc_def world_two_eq
          toISODate_one_oclock same_key_def daily_add_def daily_row_ok_def int4_ok_def)
  have c: "list_all (\<lambda>(j, r, t, t'). j = ''job_def'' \<and> usage_values_ok r) ?calls"
    using v by simp
  from completeJob_idempotent_accounting [OF u o1 o2 n v _ c, of 1762131600000 1762131600007] room e
  obtain s1 where
    r: "completeJob ''job_def'' result_abc 1762131600000 1762131600007 world_two = (Resolved, s1)"
    and one: "length (events_of_job ''job_def'' s1) = 1"
    and ev: "usageEvents s1 = usageEvents world_two @
                 [\<lparr>ue_apiKeyId = ''ak_1'', ue_jobId = ''job_def'', ue_pages = r_pageCount result_abc,
                   ue_promptTokens = fst (snd (snd (job_counts result_abc))),
                   ue_completionTokens = snd (snd (snd (job_counts result_abc))),
                   ue_model = r_llmModel result_abc, ue_createdAt = 1762131600007\<rparr>]"
    and cnt: "daily_counts ''ak_1'' (toISODate 1762131600000) (apiKeyUsageDaily s1) =
                   add_counts (daily_counts ''ak_1'' (toISODate 1762131600000) (apiKeyUsageDaily world_two))
                     (job_counts result_abc)"
    and outs: "list_all (\<lambda>out. out = Resolved) (completion_outcomes ?calls s1)"
    and same: "usageEvents (run_completions ?calls s1) = usageEvents s1"
      "apiKeyUsageDaily (run_completions ?calls s1) = apiKeyUsageDaily s1"
    by auto
  have l2: "length (usageEvents s1) = 2" by (simp add: ev len)
  have c2: "daily_counts ''ak_1'' (2025, 11, 3) (apiKeyUsageDaily s1) = (4, 2, 60, 40)"
    using cnt by (simp add: toISODate_one_oclock dc add_counts_def job_counts_def result_abc_def)
  have o: "completion_outcomes ?calls s1 = [Resolved, Resolved]"
    using outs by simp
  from u len dc o1 o2 v e room r one l2 c2 o same show ?thesis by blast
qed

text \<open>
  C8 does not hold of the code when the peer disconnects while \<^verbatim>\<open>open\<close> is suspended at
  an await: \<^verbatim>\<open>close\<close> finds no \<^verbatim>\<open>wsData\<close> and unsubscribes nothing, then \<^verbatim>\<open>open\<close> resumes,
  finds the job, stores \<^verbatim>\<open>wsData\<close> and subscribes its callback. The socket is closed, no
  handler of the connection is left to run, and callback 0 stays registered for
  \<^verbatim>\<open>job_abc\<close>. With the same events in the other order (the peer disconnects after
  \<^verbatim>\<open>open\<close> has ended) nothing stays registered.
\<close>

theorem close_during_open_leaks:
  "subscribers (g_world (gateway_run close_during_open gateway0)) ''job_abc'' = {0}
   \<and> closed (g_sockets (gateway_run close_during_open gateway0) 0)
   \<and> g_opening (gateway_run close_during_open gateway0) 0 = None
   \<and> subscribers (g_world (gateway_run close_after_open gateway0)) ''job_abc'' = {}"
  by (simp add: close_during_open_def close_after_open_def gateway0_def key_org_a_def
        jobsWebSocket_close_def unsubscribeFromJob_def
        Let_def subscribeToJob_def fresh_socket_def world0_def job_abc_def)

end
